theory Spec2Isabelle
  imports Complex_Main "HOL-Library.Word"
begin

section \<open>The size-reduction pipeline of scripts/compress\_og\_banner.py\<close>

text \<open>
  The script is a straight-line pipeline over two external collaborators: the file
  system (\<open>pathlib\<close>) and the imaging library (\<open>PIL\<close>). Neither is code of the
  repository. The file system is modelled as a finite map from paths to byte strings;
  the imaging library is a record of functions (decoder, encoder, resampler, compositor)
  that every definition and theorem takes as a parameter, so nothing proved below depends
  on what a codec computes. Every exception the script can meet is a value \<open>Inl\<close> of
  the result, together with the file system at the moment it was raised.
\<close>

subsection \<open>Paths\<close>

text \<open>
  A \<open>Path\<close> is the list of its components; \<open>name\<close> is the last one. \<open>suffix\<close>,
  \<open>stem\<close>, \<open>with_name\<close> and \<open>with_suffix\<close> follow \<open>pathlib.PurePath\<close> of
  Python 3.14, the interpreter that the first line of the script declares: the stem ends at
  the last dot of the name, provided that something other than dots precedes that dot; the
  suffix is taken from the name without its leading dots, so a single dot at the end of a
  name is a suffix (up to Python 3.13 it was not). Paths are POSIX paths, with the slash
  as the separator.
\<close>

type_synonym path = "string list"

datatype error = FileNotFoundError | UnidentifiedImageError | OSError | ValueError | IndexError

definition name :: "path \<Rightarrow> string" where
  "name p = (if p = [] then [] else last p)"

definition parent :: "path \<Rightarrow> path" where
  "parent p = butlast p"

definition joinpath :: "path \<Rightarrow> string \<Rightarrow> path" where
  "joinpath p c = p @ [c]"

text \<open>\<open>rfind_dot n\<close> is \<open>n.rfind('.')\<close>, with \<open>None\<close> for Python's \<open>-1\<close>.\<close>

definition rfind_dot :: "string \<Rightarrow> nat option" where
  "rfind_dot n =
     (if CHR ''.'' \<in> set n
      then Some (length n - 1 - length (takeWhile (\<lambda>c. c \<noteq> CHR ''.'') (rev n)))
      else None)"

text \<open>\<open>lstrip_dots n\<close> is \<open>n.lstrip('.')\<close>.\<close>

definition lstrip_dots :: "string \<Rightarrow> string" where
  "lstrip_dots n = dropWhile (\<lambda>c. c = CHR ''.'') n"

definition suffix :: "path \<Rightarrow> string" where
  "suffix p =
     (case rfind_dot (lstrip_dots (name p)) of
        None \<Rightarrow> []
      | Some i \<Rightarrow> drop i (lstrip_dots (name p)))"

definition stem :: "path \<Rightarrow> string" where
  "stem p =
     (case rfind_dot (name p) of
        None \<Rightarrow> name p
      | Some i \<Rightarrow> if lstrip_dots (take i (name p)) \<noteq> [] then take i (name p) else name p)"

definition with_name :: "path \<Rightarrow> string \<Rightarrow> error + path" where
  "with_name p n =
     (if n = [] \<or> CHR ''/'' \<in> set n \<or> n = ''.'' then Inl ValueError
      else if p = [] then Inl ValueError
      else Inr (butlast p @ [n]))"

definition with_suffix :: "path \<Rightarrow> string \<Rightarrow> error + path" where
  "with_suffix p sfx =
     (if stem p = [] then Inl ValueError
      else if sfx \<noteq> [] \<and> hd sfx \<noteq> CHR ''.'' then Inl ValueError
      else with_name p (stem p @ sfx))"

subsection \<open>Images and the imaging library\<close>

text \<open>
  An image has a mode (PIL's mode string), a size (width, height) and pixel data of an
  abstract type \<open>'px\<close>. The library is a record of the functions the script calls:
  \<^item> \<open>decode\<close>: \<open>Image.open\<close> followed by the loading of the pixel data;
  \<^item> \<open>new_px\<close>: the pixel data of \<open>Image.new(mode, size, color)\<close>;
  \<^item> \<open>split_px\<close>: the pixel data of the bands of \<open>img.split()\<close>;
  \<^item> \<open>paste_px\<close>: the pixel data of the target after \<open>target.paste(img, mask=m)\<close>
    (\<open>paste\<close> changes neither the mode nor the size of its target);
  \<^item> \<open>resize_px\<close>: the pixel data of \<open>img.resize(size, resample)\<close>, which has the
    mode of \<open>img\<close> and the size asked for, or the error the library raises;
  \<^item> \<open>encode\<close>: the bytes that \<open>img.save\<close> writes for a format and its options, or
    the error it raises.

  PIL reads the header in \<open>Image.open\<close> and defers the pixel data to their first use
  (\<open>split\<close>, \<open>save\<close> or \<open>resize\<close>), reading them from the file it opened, which
  the rename does not change. The model decodes at once: a file whose pixel data do not
  load is refused by \<open>decode\<close>, before the rename, where PIL may raise at the first
  \<open>save\<close>, after it; the original is then at the input path in the model and at the
  backup path with PIL, and in neither case is it lost or the backup unlinked.
\<close>

type_synonym bytes = "8 word list"

record 'px image =
  mode :: string
  im_size :: "nat \<times> nat"
  pixels :: 'px

datatype save_format =
    PNG bool nat    \<comment> \<open>\<open>format='PNG', optimize, compress_level\<close>\<close>
  | JPEG nat bool   \<comment> \<open>\<open>format='JPEG', quality, optimize\<close>\<close>

datatype resampling = LANCZOS

record 'px pil =
  decode :: "bytes \<Rightarrow> error + 'px image"
  new_px :: "string \<Rightarrow> nat \<times> nat \<Rightarrow> nat \<times> nat \<times> nat \<Rightarrow> 'px"
  split_px :: "'px image \<Rightarrow> 'px list"
  paste_px :: "'px image \<Rightarrow> 'px image \<Rightarrow> 'px image \<Rightarrow> 'px"
  resize_px :: "'px image \<Rightarrow> nat \<times> nat \<Rightarrow> resampling \<Rightarrow> error + 'px"
  encode :: "save_format \<Rightarrow> 'px image \<Rightarrow> error + bytes"

subsection \<open>The file system, the trace and the effects\<close>

text \<open>
  The state is the file system and a trace of the calls that touched it, in order. The
  trace is ghost state: it records which image every \<open>save\<close> encoded and which files
  were opened, renamed and unlinked. The progress lines the script prints are advisory
  and are left out; the traceback printed by \<open>main\<close> is an event.
\<close>

datatype 'px event =
    Opened path
  | Renamed path path
  | Saved path save_format "'px image"
  | Unlinked path
  | Print_exc error

record 'px state =
  files :: "path \<rightharpoonup> bytes"
  trace :: "'px event list"

type_synonym ('a, 'px) io = "'px state \<Rightarrow> (error \<times> 'px state) + ('a \<times> 'px state)"

definition io_return :: "'a \<Rightarrow> ('a, 'px) io" where
  "io_return x = (\<lambda>s. Inr (x, s))"

definition io_raise :: "error \<Rightarrow> ('a, 'px) io" where
  "io_raise e = (\<lambda>s. Inl (e, s))"

definition io_bind :: "('a, 'px) io \<Rightarrow> ('a \<Rightarrow> ('b, 'px) io) \<Rightarrow> ('b, 'px) io" where
  "io_bind m f = (\<lambda>s. case m s of Inl x \<Rightarrow> Inl x | Inr (a, s') \<Rightarrow> f a s')"

definition io_lift :: "error + 'a \<Rightarrow> ('a, 'px) io" where
  "io_lift r = (case r of Inl e \<Rightarrow> io_raise e | Inr x \<Rightarrow> io_return x)"

definition exists_path :: "path \<Rightarrow> 'px state \<Rightarrow> bool" where
  "exists_path p s = (files s p \<noteq> None)"

definition Image_open :: "'px pil \<Rightarrow> path \<Rightarrow> ('px image, 'px) io" where
  "Image_open lib p = (\<lambda>s.
     case files s p of
       None \<Rightarrow> Inl (FileNotFoundError, s)
     | Some data \<Rightarrow>
         (case decode lib data of
            Inl e \<Rightarrow> Inl (e, s)
          | Inr img \<Rightarrow> Inr (img, s\<lparr>trace := trace s @ [Opened p]\<rparr>)))"

text \<open>
  \<open>p.stat().st_size / 1024\<close>: the size in bytes over 1024, as an exact rational. Python's
  quotient is a double; it is this rational for every size below \<open>2^53\<close> bytes, and the
  comparison of a double with an \<open>int\<close> budget is exact.
\<close>

definition stat_kb :: "path \<Rightarrow> (rat, 'px) io" where
  "stat_kb p = (\<lambda>s.
     case files s p of
       None \<Rightarrow> Inl (FileNotFoundError, s)
     | Some data \<Rightarrow> Inr (of_nat (length data) / 1024, s))"

text \<open>\<open>os.rename\<close>: the bytes move to the target, replacing what was there.\<close>

definition rename :: "path \<Rightarrow> path \<Rightarrow> (unit, 'px) io" where
  "rename src dst = (\<lambda>s.
     case files s src of
       None \<Rightarrow> Inl (FileNotFoundError, s)
     | Some data \<Rightarrow>
         Inr ((), s\<lparr>files := (files s)(src := None, dst \<mapsto> data),
                     trace := trace s @ [Renamed src dst]\<rparr>))"

definition unlink :: "path \<Rightarrow> (unit, 'px) io" where
  "unlink p = (\<lambda>s.
     case files s p of
       None \<Rightarrow> Inl (FileNotFoundError, s)
     | Some data \<Rightarrow>
         Inr ((), s\<lparr>files := (files s)(p := None), trace := trace s @ [Unlinked p]\<rparr>))"

text \<open>
  \<open>img.save(p, ...)\<close>: the call is recorded with the image it encodes. When the encoder
  raises, PIL removes the file if the call created it and leaves it truncated otherwise.
\<close>

definition save :: "'px pil \<Rightarrow> 'px image \<Rightarrow> path \<Rightarrow> save_format \<Rightarrow> (unit, 'px) io" where
  "save lib img p fmt = (\<lambda>s.
     case encode lib fmt img of
       Inl e \<Rightarrow>
         Inl (e, s\<lparr>files := (files s)(p := (if files s p = None then None else Some [])),
                    trace := trace s @ [Saved p fmt img]\<rparr>)
     | Inr data \<Rightarrow>
         Inr ((), s\<lparr>files := (files s)(p \<mapsto> data), trace := trace s @ [Saved p fmt img]\<rparr>))"

subsection \<open>compress\_image\<close>

text \<open>
  Lines 27 to 31 and 67 to 70: an image of mode \<open>RGBA\<close> is pasted, with its fourth band
  as the mask, onto a new white \<open>RGB\<close> image of the same size; any other image is kept.
\<close>

definition convert_rgba :: "'px pil \<Rightarrow> 'px image \<Rightarrow> error + 'px image" where
  "convert_rgba lib img =
     (if mode img = ''RGBA'' then
        (let rgb_img = \<lparr>mode = ''RGB'', im_size = im_size img,
                        pixels = new_px lib ''RGB'' (im_size img) (255, 255, 255)\<rparr>;
             bands = map (\<lambda>b. \<lparr>mode = ''L'', im_size = im_size img, pixels = b\<rparr>)
                         (split_px lib img)
         in if 3 < length bands
            then Inr (rgb_img\<lparr>pixels := paste_px lib rgb_img img (bands ! 3)\<rparr>)
            else Inl IndexError)
      else Inr img)"

text \<open>
  \<open>int(n * 0.8)\<close>: the double \<open>0.8\<close> lies above four fifths by less than \<open>2^-54\<close> and
  the product is rounded to nearest, so for every dimension an image can have the
  truncation is the floor of \<open>4 n / 5\<close>.
\<close>

definition scale_dim :: "nat \<Rightarrow> nat" where
  "scale_dim n = (n * 4) div 5"

text \<open>Lines 52 to 62: the loop over the quality levels; \<open>None\<close> when it runs to its end.\<close>

fun try_jpeg ::
  "'px pil \<Rightarrow> 'px image \<Rightarrow> path \<Rightarrow> path \<Rightarrow> int \<Rightarrow> nat list \<Rightarrow> ((path \<times> rat) option, 'px) io"
where
  "try_jpeg lib img input_path backup_path max_size_kb [] = io_return None"
| "try_jpeg lib img input_path backup_path max_size_kb (quality # rest) =
     io_bind (save lib img input_path (JPEG quality True)) (\<lambda>_.
     io_bind (stat_kb input_path) (\<lambda>jpeg_size.
     if jpeg_size < of_int max_size_kb then
       io_bind (unlink backup_path) (\<lambda>_.
       io_return (Some (input_path, jpeg_size)))
     else try_jpeg lib img input_path backup_path max_size_kb rest))"

text \<open>Lines 64 to 82: the last resort.\<close>

definition reduce_dimensions ::
  "'px pil \<Rightarrow> path \<Rightarrow> path \<Rightarrow> (path \<times> rat, 'px) io"
where
  "reduce_dimensions lib input_path backup_path =
     io_bind (Image_open lib backup_path) (\<lambda>img.
     io_bind (io_lift (convert_rgba lib img)) (\<lambda>img.
     let new_width = scale_dim (fst (im_size img));
         new_height = scale_dim (snd (im_size img))
     in
     io_bind (io_lift (resize_px lib img (new_width, new_height) LANCZOS)) (\<lambda>px.
     let img_resized = \<lparr>mode = mode img, im_size = (new_width, new_height), pixels = px\<rparr>
     in
     io_bind (save lib img_resized input_path (JPEG 85 True)) (\<lambda>_.
     io_bind (stat_kb input_path) (\<lambda>final_size.
     io_bind (unlink backup_path) (\<lambda>_.
     io_return (input_path, final_size)))))))"

definition compress_image :: "'px pil \<Rightarrow> path \<Rightarrow> int \<Rightarrow> (path \<times> rat, 'px) io" where
  "compress_image lib input_path max_size_kb =
     io_bind (Image_open lib input_path) (\<lambda>img.
     io_bind (stat_kb input_path) (\<lambda>original_size.
     io_bind (io_lift (convert_rgba lib img)) (\<lambda>img.
     io_bind (io_lift (with_suffix input_path ''.backup.png'')) (\<lambda>backup_path.
     io_bind (rename input_path backup_path) (\<lambda>_.
     io_bind (save lib img input_path (PNG True 9)) (\<lambda>_.
     io_bind (stat_kb input_path) (\<lambda>png_size.
     if png_size < of_int max_size_kb then
       io_bind (unlink backup_path) (\<lambda>_.
       io_return (input_path, png_size))
     else
       io_bind (try_jpeg lib img input_path backup_path max_size_kb [95, 85, 75, 65, 55, 45])
         (\<lambda>r. case r of
                 Some res \<Rightarrow> io_return res
               | None \<Rightarrow> reduce_dimensions lib input_path backup_path))))))))"

subsection \<open>main\<close>

text \<open>
  \<open>main\<close> returns the exit status that \<open>exit(main())\<close> hands to the system. Its
  argument is the path of the script, \<open>__file__\<close>.
\<close>

definition banner_path :: "path \<Rightarrow> path" where
  "banner_path script_file =
     joinpath (joinpath (parent (parent script_file)) ''public'') ''og-banner.png''"

definition main :: "'px pil \<Rightarrow> path \<Rightarrow> 'px state \<Rightarrow> int \<times> 'px state" where
  "main lib script_file s =
     (if \<not> exists_path (banner_path script_file) s then (1, s)
      else
        (case compress_image lib (banner_path script_file) 300 s of
           Inr ((output_path, final_size), s') \<Rightarrow> (0, s')
         | Inl (e, s') \<Rightarrow> (1, s'\<lparr>trace := trace s' @ [Print_exc e]\<rparr>)))"

subsection \<open>What a run leaves behind\<close>

text \<open>The state a run ends in, whether it returned or raised, and the events it added.\<close>

definition final_state :: "(error \<times> 's) + ('a \<times> 's) \<Rightarrow> 's" where
  "final_state r = (case r of Inl (e, s) \<Rightarrow> s | Inr (x, s) \<Rightarrow> s)"

definition new_events :: "'px state \<Rightarrow> 'px state \<Rightarrow> 'px event list" where
  "new_events s s' = drop (length (trace s)) (trace s')"

definition kb :: "bytes \<Rightarrow> rat" where
  "kb data = of_nat (length data) / 1024"

definition quality_ladder :: "nat list" where
  "quality_ladder = [95, 85, 75, 65, 55, 45]"

text \<open>The events of the quality loop that tries the levels \<open>qs\<close> in order.\<close>

definition jpeg_saves :: "path \<Rightarrow> 'px image \<Rightarrow> nat list \<Rightarrow> 'px event list" where
  "jpeg_saves p img qs = map (\<lambda>q. Saved p (JPEG q True) img) qs"

text \<open>The image that the last resort encodes, from the flattened original.\<close>

definition resized :: "'px image \<Rightarrow> 'px \<Rightarrow> 'px image" where
  "resized img px =
     \<lparr>mode = mode img,
      im_size = (scale_dim (fst (im_size img)), scale_dim (snd (im_size img))),
      pixels = px\<rparr>"

subsection \<open>The specification's wording, for comparison\<close>

text \<open>
  The backup name as the specification words it: the extension is replaced by a
  \<open>.backup\<close> marker followed by the original extension.
\<close>

definition spec_backup_path :: "path \<Rightarrow> path" where
  "spec_backup_path p = butlast p @ [stem p @ ''.backup'' @ suffix p]"

text \<open>
  The modes that carry a transparency channel of their own, as PIL's
  \<open>has_transparency_data\<close> lists them.
\<close>

definition has_alpha_channel :: "string \<Rightarrow> bool" where
  "has_alpha_channel m = (m \<in> set [''LA'', ''La'', ''PA'', ''RGBA'', ''RGBa''])"

subsection \<open>A small codec to run the pipeline on\<close>

text \<open>
  A file is a four-byte header (format, mode, width, height) followed by one byte per
  pixel. The lossless format stores every pixel; the lossy format at quality \<open>q\<close> stores
  the first \<open>q\<close> percent of them, writes the mode \<open>RGB\<close> only, and decoding pads with
  zeros. Resizing refuses an empty size and keeps the first pixels.
\<close>

definition demo_tag :: "string \<Rightarrow> 8 word" where
  "demo_tag m = (if m = ''RGB'' then 0 else if m = ''RGBA'' then 1 else 2)"

fun demo_decode :: "bytes \<Rightarrow> error + bytes image" where
  "demo_decode (t # m # w # h # rest) =
     (if 2 < m then Inl UnidentifiedImageError
      else Inr \<lparr>mode = (if m = 0 then ''RGB'' else if m = 1 then ''RGBA'' else ''LA''),
                im_size = (unat w, unat h),
                pixels = rest @ replicate (unat w * unat h - length rest) 0\<rparr>)"
| "demo_decode _ = Inl UnidentifiedImageError"

definition demo_encode :: "save_format \<Rightarrow> bytes image \<Rightarrow> error + bytes" where
  "demo_encode fmt img =
     (case fmt of
        PNG opt lvl \<Rightarrow>
          Inr ([0, demo_tag (mode img), of_nat (fst (im_size img)), of_nat (snd (im_size img))]
               @ pixels img)
      | JPEG q opt \<Rightarrow>
          if mode img = ''RGB''
          then Inr ([1, 0, of_nat (fst (im_size img)), of_nat (snd (im_size img))]
                    @ take (length (pixels img) * q div 100) (pixels img))
          else Inl OSError)"

definition demo_pil :: "bytes pil" where
  "demo_pil =
     \<lparr>decode = demo_decode,
      new_px = (\<lambda>m sz c. replicate (fst sz * snd sz) 255),
      split_px = (\<lambda>img. if mode img = ''RGBA'' then replicate 4 (pixels img) else [pixels img]),
      paste_px = (\<lambda>target img mask. pixels img),
      resize_px = (\<lambda>img sz r. if fst sz = 0 \<or> snd sz = 0 then Inl ValueError
                                 else Inr (take (fst sz * snd sz) (pixels img))),
      encode = demo_encode\<rparr>"

text \<open>
  The same codec with a \<open>split\<close> that yields no bands, so that the flattening raises
  (PIL raises from \<open>split\<close> when the pixel data of the file cannot be loaded).
\<close>

definition demo_pil_no_bands :: "bytes pil" where
  "demo_pil_no_bands = demo_pil\<lparr>split_px := (\<lambda>img. [])\<rparr>"

definition demo_file :: "8 word \<Rightarrow> 8 word \<Rightarrow> 8 word \<Rightarrow> bytes" where
  "demo_file m w h = [0, m, w, h] @ replicate (unat w * unat h) 7"

definition demo_state :: "path \<Rightarrow> bytes \<Rightarrow> bytes state" where
  "demo_state p data = \<lparr>files = [p \<mapsto> data], trace = []\<rparr>"

subsection \<open>The events a run may add after the rename\<close>

text \<open>
  \<open>encodes_original lib img x\<close>: the image \<open>x\<close> is \<open>img\<close> itself or \<open>img\<close> resized by
  the last resort. \<open>run_event\<close>: a save to the input path of such an image, or the
  opening of the backup.
\<close>

definition encodes_original :: "'px pil \<Rightarrow> 'px image \<Rightarrow> 'px image \<Rightarrow> bool" where
  "encodes_original lib img x =
     (x = img \<or>
      (case resize_px lib img (scale_dim (fst (im_size img)), scale_dim (snd (im_size img)))
              LANCZOS of
         Inl e \<Rightarrow> False
       | Inr px \<Rightarrow> x = resized img px))"

definition run_event :: "'px pil \<Rightarrow> 'px image \<Rightarrow> path \<Rightarrow> path \<Rightarrow> 'px event \<Rightarrow> bool" where
  "run_event lib img p bk e =
     (case e of
        Saved q f x \<Rightarrow> q = p \<and> encodes_original lib img x
      | Opened q \<Rightarrow> q = bk
      | _ \<Rightarrow> False)"

section \<open>Basic facts\<close>

text \<open>The comparison in kilobytes is the comparison in bytes with 1024 times the budget.\<close>

lemma kb_less: "(kb d < of_int k) = (int (length d) < k * 1024)"
proof -
  have "((of_nat (length d) :: rat) / 1024 < of_int k) = ((of_nat (length d) :: rat) < of_int k * 1024)"
    by (simp add: pos_divide_less_eq)
  also have "\<dots> = ((of_int (int (length d)) :: rat) < of_int (k * 1024))" by simp
  also have "\<dots> = (int (length d) < k * 1024)" by (rule of_int_less_iff)
  finally show ?thesis by (simp add: kb_def)
qed

lemma rfind_dot_tail:
  assumes "rfind_dot n = Some i"
  shows "CHR ''.'' \<notin> set (drop (Suc i) n)"
proof -
  let ?tw = "takeWhile (\<lambda>c. c \<noteq> CHR ''.'') (rev n)"
  from assms have dot: "CHR ''.'' \<in> set n" and i: "i = length n - 1 - length ?tw"
    by (auto simp: rfind_dot_def split: if_splits)
  have ne: "?tw \<noteq> rev n" using dot by (simp add: takeWhile_eq_all_conv)
  have tk: "take (length ?tw) (rev n) = ?tw" by (metis takeWhile_eq_take)
  have "length ?tw < length (rev n)"
  proof (rule ccontr)
    assume "\<not> length ?tw < length (rev n)"
    then have "take (length ?tw) (rev n) = rev n" by simp
    with tk ne show False by simp
  qed
  then have lt: "length ?tw < length n" by simp
  then have "Suc i = length n - length ?tw" using i by arith
  then have "drop (Suc i) n = rev (take (length ?tw) (rev n))"
    by (simp add: take_rev)
  also have "take (length ?tw) (rev n) = ?tw" by (rule tk)
  finally have "set (drop (Suc i) n) = set ?tw" by simp
  then show ?thesis by (auto dest: set_takeWhileD)
qed

lemma stem_cases:
  "stem p = name p \<or> (\<exists>i. rfind_dot (name p) = Some i \<and> stem p = take i (name p))"
  by (auto simp: stem_def split: option.splits)

lemma stem_empty: "(stem p = []) = (name p = [])"
  by (auto simp: stem_def lstrip_dots_def split: option.splits if_splits)

lemma with_suffix_backup:
  "with_suffix p ''.backup.png'' =
     (if name p = [] \<or> CHR ''/'' \<in> set (stem p) then Inl ValueError
      else Inr (butlast p @ [stem p @ ''.backup.png'']))"
proof -
  have "name p \<noteq> [] \<Longrightarrow> p \<noteq> []" by (auto simp: name_def)
  then show ?thesis
    by (auto simp: with_suffix_def with_name_def stem_empty)
qed

text \<open>A dot at the end of the name is its suffix, and leading dots are none.\<close>

lemma with_suffix_dots:
  "with_suffix [''name.''] ''.backup.png'' = Inr [''name.backup.png''] \<and>
   with_suffix [''..name''] ''.backup.png'' = Inr [''..name.backup.png'']"
  by (simp add: with_suffix_backup name_def stem_def rfind_dot_def lstrip_dots_def)

lemma with_suffix_neq:
  assumes "with_suffix p ''.backup.png'' = Inr bk"
  shows "bk \<noteq> p"
proof
  assume "bk = p"
  from assms have n: "name p \<noteq> []" and bk: "bk = butlast p @ [stem p @ ''.backup.png'']"
    by (auto simp: with_suffix_backup split: if_splits)
  from n have p: "p = butlast p @ [name p]" by (auto simp: name_def split: if_splits)
  from bk \<open>bk = p\<close> p have eq: "stem p @ ''.backup.png'' = name p" by (metis append1_eq_conv)
  from stem_cases[of p] show False
  proof
    assume "stem p = name p"
    with eq show False by simp
  next
    assume "\<exists>i. rfind_dot (name p) = Some i \<and> stem p = take i (name p)"
    then obtain i where i: "rfind_dot (name p) = Some i" and st: "stem p = take i (name p)"
      by blast
    have "take i (name p) @ ''.backup.png'' = name p" using eq st by simp
    then have d: "drop i (name p) = ''.backup.png''"
      by (metis append_take_drop_id same_append_eq)
    have "drop (Suc i) (name p) = tl (drop i (name p))" by (simp add: drop_Suc tl_drop)
    then have "drop (Suc i) (name p) = ''backup.png''" using d by simp
    with rfind_dot_tail[OF i] show False by simp
  qed
qed

lemmas io_defs = io_bind_def io_lift_def io_return_def io_raise_def Image_open_def stat_kb_def
  rename_def save_def unlink_def

text \<open>
  The quality loop. When a level passes the test of line 57 and every level before it was
  encoded and failed the test, the loop returns at that level. When every level is encoded
  and fails, the loop runs to its end and has written to the input path only.
\<close>

lemma try_jpeg_accept:
  assumes "\<forall>q'\<in>set pre. \<exists>d'. encode lib (JPEG q' True) img = Inr d' \<and> \<not> kb d' < of_int k"
    and "encode lib (JPEG q True) img = Inr d" and "kb d < of_int k"
    and "files s bk = Some b" and "bk \<noteq> p"
  shows "try_jpeg lib img p bk k (pre @ q # post) s =
           Inr (Some (p, kb d),
                s\<lparr>files := (files s)(bk := None, p \<mapsto> d),
                  trace := trace s @ jpeg_saves p img (pre @ [q]) @ [Unlinked bk]\<rparr>)"
  using assms
proof (induction pre arbitrary: s)
  case Nil
  have f: "(files s)(p \<mapsto> d, bk := None) = (files s)(bk := None, p \<mapsto> d)"
    using Nil.prems(5) by (auto simp: fun_eq_iff)
  have "try_jpeg lib img p bk k ([] @ q # post) s =
           Inr (Some (p, kb d),
                s\<lparr>files := (files s)(p \<mapsto> d, bk := None),
                  trace := trace s @ jpeg_saves p img ([] @ [q]) @ [Unlinked bk]\<rparr>)"
    using Nil.prems by (simp add: io_defs kb_def[symmetric] jpeg_saves_def)
  then show ?case by (simp only: f)
next
  case (Cons a pre)
  from Cons.prems(1) obtain d' where d': "encode lib (JPEG a True) img = Inr d'"
    "\<not> kb d' < of_int k" by auto
  let ?s1 = "s\<lparr>files := (files s)(p \<mapsto> d'), trace := trace s @ [Saved p (JPEG a True) img]\<rparr>"
  have step: "try_jpeg lib img p bk k ((a # pre) @ q # post) s =
              try_jpeg lib img p bk k (pre @ q # post) ?s1"
    using d' by (simp add: io_defs kb_def[symmetric])
  have b1: "files ?s1 bk = Some b" using Cons.prems(4,5) by simp
  have pre: "\<forall>q'\<in>set pre. \<exists>d'. encode lib (JPEG q' True) img = Inr d' \<and> \<not> kb d' < of_int k"
    using Cons.prems(1) by simp
  have ih: "try_jpeg lib img p bk k (pre @ q # post) ?s1 =
           Inr (Some (p, kb d),
                ?s1\<lparr>files := (files ?s1)(bk := None, p \<mapsto> d),
                  trace := trace ?s1 @ jpeg_saves p img (pre @ [q]) @ [Unlinked bk]\<rparr>)"
    by (rule Cons.IH[OF pre Cons.prems(2,3) b1 Cons.prems(5)])
  have f: "(files s)(p \<mapsto> d', bk := None, p \<mapsto> d) = (files s)(bk := None, p \<mapsto> d)"
    by (auto simp: fun_eq_iff)
  have "?s1\<lparr>files := (files ?s1)(bk := None, p \<mapsto> d),
            trace := trace ?s1 @ jpeg_saves p img (pre @ [q]) @ [Unlinked bk]\<rparr> =
        s\<lparr>files := (files s)(bk := None, p \<mapsto> d),
          trace := trace s @ jpeg_saves p img ((a # pre) @ [q]) @ [Unlinked bk]\<rparr>"
    by (simp add: jpeg_saves_def f)
  with step ih show ?case by (simp only:)
qed

lemma try_jpeg_exhaust:
  assumes "\<forall>q\<in>set qs. \<exists>d. encode lib (JPEG q True) img = Inr d \<and> \<not> kb d < of_int k"
  shows "\<exists>s'. try_jpeg lib img p bk k qs s = Inr (None, s') \<and>
              (\<forall>x. x \<noteq> p \<longrightarrow> files s' x = files s x) \<and>
              trace s' = trace s @ jpeg_saves p img qs"
  using assms
proof (induction qs arbitrary: s)
  case Nil
  then show ?case by (simp add: io_defs jpeg_saves_def)
next
  case (Cons a qs)
  from Cons.prems obtain d' where d': "encode lib (JPEG a True) img = Inr d'"
    "\<not> kb d' < of_int k" by auto
  let ?s1 = "s\<lparr>files := (files s)(p \<mapsto> d'), trace := trace s @ [Saved p (JPEG a True) img]\<rparr>"
  have step: "try_jpeg lib img p bk k (a # qs) s = try_jpeg lib img p bk k qs ?s1"
    using d' by (simp add: io_defs kb_def[symmetric])
  from Cons.IH[of ?s1] Cons.prems obtain s' where
    "try_jpeg lib img p bk k qs ?s1 = Inr (None, s')"
    "\<forall>x. x \<noteq> p \<longrightarrow> files s' x = files ?s1 x"
    "trace s' = trace ?s1 @ jpeg_saves p img qs" by auto
  then show ?case using step by (auto simp: jpeg_saves_def)
qed

text \<open>The run that returns at the lossless stage.\<close>

lemma lossless_run:
  assumes "files s p = Some data" and "decode lib data = Inr im"
    and "convert_rgba lib im = Inr img" and "with_suffix p ''.backup.png'' = Inr bk"
    and "encode lib (PNG True 9) img = Inr png"
    and "kb png < of_int k"
  shows "compress_image lib p k s =
           Inr ((p, kb png),
                s\<lparr>files := (files s)(bk := None, p \<mapsto> png),
                  trace := trace s @
                    [Opened p, Renamed p bk, Saved p (PNG True 9) img, Unlinked bk]\<rparr>)"
proof -
  have ne: "bk \<noteq> p" using assms(4) by (rule with_suffix_neq)
  have f: "(files s)(p := None, bk \<mapsto> data, p \<mapsto> png, bk := None) =
           (files s)(bk := None, p \<mapsto> png)"
    using ne by (auto simp: fun_eq_iff)
  show ?thesis
    unfolding compress_image_def
    using assms ne f by (simp add: io_defs kb_def[symmetric])
qed

text \<open>
  The run up to the quality loop, when the PNG is encoded and fails the test of line 44.
\<close>

lemma convert_rgba_size: "convert_rgba lib im = Inr img \<Longrightarrow> im_size img = im_size im"
  by (auto simp: convert_rgba_def Let_def split: if_splits)

lemma after_rename:
  assumes "files s p = Some data" and "decode lib data = Inr im"
    and "convert_rgba lib im = Inr img" and "with_suffix p ''.backup.png'' = Inr bk"
    and "encode lib (PNG True 9) img = Inr png"
    and "\<not> kb png < of_int k"
  shows "compress_image lib p k s =
           io_bind (try_jpeg lib img p bk k quality_ladder)
             (\<lambda>r. case r of Some res \<Rightarrow> io_return res | None \<Rightarrow> reduce_dimensions lib p bk)
             (s\<lparr>files := (files s)(p \<mapsto> png, bk \<mapsto> data),
                trace := trace s @ [Opened p, Renamed p bk, Saved p (PNG True 9) img]\<rparr>)"
proof -
  have ne: "bk \<noteq> p" using assms(4) by (rule with_suffix_neq)
  have f: "(files s)(p := None, bk \<mapsto> data, p \<mapsto> png) = (files s)(p \<mapsto> png, bk \<mapsto> data)"
    using ne by (auto simp: fun_eq_iff)
  have "compress_image lib p k s =
           io_bind (try_jpeg lib img p bk k quality_ladder)
             (\<lambda>r. case r of Some res \<Rightarrow> io_return res | None \<Rightarrow> reduce_dimensions lib p bk)
             (s\<lparr>files := (files s)(p := None, bk \<mapsto> data, p \<mapsto> png),
                trace := trace s @ [Opened p, Renamed p bk, Saved p (PNG True 9) img]\<rparr>)"
    unfolding compress_image_def quality_ladder_def
    using assms ne
    by (simp add: io_defs kb_def[symmetric] del: try_jpeg.simps)
  then show ?thesis by (simp only: f)
qed


lemma bytes_kb: "(k * 1024 \<le> int (length d)) = (\<not> kb d < of_int k)"
  by (simp add: kb_less not_less)

text \<open>
  The last resort, run from a state whose backup holds the original bytes, and the whole
  run when every level of the ladder is encoded and fails the test.
\<close>

lemma reduce_dimensions_run:
  assumes "files s bk = Some data" and "decode lib data = Inr im"
    and "convert_rgba lib im = Inr img"
    and "resize_px lib img (scale_dim (fst (im_size img)), scale_dim (snd (im_size img)))
           LANCZOS = Inr px"
    and "encode lib (JPEG 85 True) (resized img px) = Inr out"
    and "bk \<noteq> p"
  shows "reduce_dimensions lib p bk s =
           Inr ((p, kb out),
                s\<lparr>files := (files s)(p \<mapsto> out, bk := None),
                  trace := trace s @
                    [Opened bk, Saved p (JPEG 85 True) (resized img px), Unlinked bk]\<rparr>)"
  unfolding reduce_dimensions_def
  using assms by (simp add: io_defs Let_def resized_def kb_def[symmetric])

lemma fallback_run:
  assumes "files s p = Some data" and "decode lib data = Inr im"
    and "convert_rgba lib im = Inr img" and "with_suffix p ''.backup.png'' = Inr bk"
    and "encode lib (PNG True 9) img = Inr png"
    and "\<not> kb png < of_int k"
    and "\<forall>q\<in>set quality_ladder. \<exists>d. encode lib (JPEG q True) img = Inr d \<and> \<not> kb d < of_int k"
    and "resize_px lib img (scale_dim (fst (im_size img)), scale_dim (snd (im_size img)))
           LANCZOS = Inr px"
    and "encode lib (JPEG 85 True) (resized img px) = Inr out"
  shows "compress_image lib p k s =
           Inr ((p, kb out),
                s\<lparr>files := (files s)(bk := None, p \<mapsto> out),
                  trace := trace s @ [Opened p, Renamed p bk, Saved p (PNG True 9) img]
                             @ jpeg_saves p img quality_ladder
                             @ [Opened bk, Saved p (JPEG 85 True) (resized img px),
                                Unlinked bk]\<rparr>)"
proof -
  let ?s1 = "s\<lparr>files := (files s)(p \<mapsto> png, bk \<mapsto> data),
                trace := trace s @ [Opened p, Renamed p bk, Saved p (PNG True 9) img]\<rparr>"
  have ne: "bk \<noteq> p" using assms(4) by (rule with_suffix_neq)
  from try_jpeg_exhaust[OF assms(7), of p bk ?s1] obtain s2 where
    loop: "try_jpeg lib img p bk k quality_ladder ?s1 = Inr (None, s2)"
    and same: "\<forall>x. x \<noteq> p \<longrightarrow> files s2 x = files ?s1 x"
    and tr: "trace s2 = trace ?s1 @ jpeg_saves p img quality_ladder" by blast
  have bk: "files s2 bk = Some data" using same ne by simp
  have f: "(files s2)(p \<mapsto> out, bk := None) = (files s)(bk := None, p \<mapsto> out)"
    using same ne by (auto simp: fun_eq_iff)
  have "compress_image lib p k s = reduce_dimensions lib p bk s2"
    unfolding after_rename[OF assms(1-6)]
    by (simp add: io_bind_def loop del: try_jpeg.simps)
  also have "\<dots> = Inr ((p, kb out),
                s2\<lparr>files := (files s2)(p \<mapsto> out, bk := None),
                  trace := trace s2 @
                    [Opened bk, Saved p (JPEG 85 True) (resized img px), Unlinked bk]\<rparr>)"
    by (rule reduce_dimensions_run[OF bk assms(2,3,8,9) ne])
  also have "s2\<lparr>files := (files s2)(p \<mapsto> out, bk := None),
                  trace := trace s2 @
                    [Opened bk, Saved p (JPEG 85 True) (resized img px), Unlinked bk]\<rparr> =
             s\<lparr>files := (files s)(bk := None, p \<mapsto> out),
                  trace := trace s @ [Opened p, Renamed p bk, Saved p (PNG True 9) img]
                             @ jpeg_saves p img quality_ladder
                             @ [Opened bk, Saved p (JPEG 85 True) (resized img px),
                                Unlinked bk]\<rparr>"
    apply (simp only: f tr)
    apply simp
    done
  finally show ?thesis .
qed

text \<open>
  The outcome of every run of the loop, of the last resort and of the whole function,
  whether it returns or raises: what the backup holds and which events were added.
\<close>

lemma try_jpeg_outcome:
  assumes "files s bk = Some data" and "bk \<noteq> p"
  shows "(\<forall>e s'. try_jpeg lib img p bk k qs s = Inl (e, s') \<longrightarrow>
            files s' bk = Some data \<and> (\<exists>qs'. trace s' = trace s @ jpeg_saves p img qs')) \<and>
         (\<forall>s'. try_jpeg lib img p bk k qs s = Inr (None, s') \<longrightarrow>
            files s' bk = Some data \<and> trace s' = trace s @ jpeg_saves p img qs) \<and>
         (\<forall>r s'. try_jpeg lib img p bk k qs s = Inr (Some r, s') \<longrightarrow>
            files s' bk = None \<and>
            (\<exists>qs'. trace s' = trace s @ jpeg_saves p img qs' @ [Unlinked bk]))"
  using assms
proof (induction qs arbitrary: s)
  case Nil
  then show ?case by (simp add: io_return_def jpeg_saves_def)
next
  case (Cons a qs)
  show ?case
  proof (cases "encode lib (JPEG a True) img")
    case (Inl err)
    let ?s0 = "s\<lparr>files := (files s)(p := (if files s p = None then None else Some [])),
                  trace := trace s @ [Saved p (JPEG a True) img]\<rparr>"
    have r: "try_jpeg lib img p bk k (a # qs) s = Inl (err, ?s0)"
      using Inl by (simp add: io_defs)
    have "files ?s0 bk = Some data" using Cons.prems by simp
    moreover have "trace ?s0 = trace s @ jpeg_saves p img [a]" by (simp add: jpeg_saves_def)
    ultimately show ?thesis unfolding r by blast
  next
    case (Inr d)
    let ?s1 = "s\<lparr>files := (files s)(p \<mapsto> d), trace := trace s @ [Saved p (JPEG a True) img]\<rparr>"
    have b1: "files ?s1 bk = Some data" using Cons.prems by simp
    have t1: "trace ?s1 = trace s @ jpeg_saves p img [a]" by (simp add: jpeg_saves_def)
    have app: "\<And>qs'. jpeg_saves p img [a] @ jpeg_saves p img qs' = jpeg_saves p img (a # qs')"
      by (simp add: jpeg_saves_def)
    show ?thesis
    proof (cases "kb d < of_int k")
      case True
      then have "try_jpeg lib img p bk k (a # qs) s =
          Inr (Some (p, kb d), ?s1\<lparr>files := (files ?s1)(bk := None),
                                   trace := trace ?s1 @ [Unlinked bk]\<rparr>)"
        using Inr b1 Cons.prems by (simp add: io_defs kb_def[symmetric])
      then show ?thesis using t1 by (auto intro: exI[of _ "[a]"])
    next
      case False
      then have step: "try_jpeg lib img p bk k (a # qs) s = try_jpeg lib img p bk k qs ?s1"
        using Inr by (simp add: io_defs kb_def[symmetric])
      note ih = Cons.IH[OF b1 Cons.prems(2)]
      show ?thesis
        unfolding step using ih
        by (metis t1 app append.assoc)
    qed
  qed
qed

lemma run_event_jpeg_saves: "\<forall>e\<in>set (jpeg_saves p img qs). run_event lib img p bk e"
  by (simp add: jpeg_saves_def run_event_def encodes_original_def)

lemma reduce_dimensions_outcome:
  assumes "files s bk = Some data" and "decode lib data = Inr im"
    and "convert_rgba lib im = Inr img" and "bk \<noteq> p"
  shows "(\<forall>e s'. reduce_dimensions lib p bk s = Inl (e, s') \<longrightarrow>
            files s' bk = Some data \<and>
            (\<exists>evs. trace s' = trace s @ evs \<and> (\<forall>x\<in>set evs. run_event lib img p bk x))) \<and>
         (\<forall>r s'. reduce_dimensions lib p bk s = Inr (r, s') \<longrightarrow>
            files s' bk = None \<and>
            (\<exists>evs. trace s' = trace s @ evs @ [Unlinked bk] \<and>
                   (\<forall>x\<in>set evs. run_event lib img p bk x)))"
proof (cases "resize_px lib img (scale_dim (fst (im_size img)), scale_dim (snd (im_size img)))
                LANCZOS")
  case (Inl err)
  have r: "reduce_dimensions lib p bk s = Inl (err, s\<lparr>trace := trace s @ [Opened bk]\<rparr>)"
    unfolding reduce_dimensions_def using assms Inl by (simp add: io_defs Let_def)
  have "\<forall>x\<in>set [Opened bk]. run_event lib img p bk x" by (simp add: run_event_def)
  then show ?thesis unfolding r using assms(1) by auto
next
  case (Inr px)
  have ev: "\<forall>x\<in>set [Opened bk, Saved p (JPEG 85 True) (resized img px)].
              run_event lib img p bk x"
    using Inr by (simp add: run_event_def encodes_original_def)
  show ?thesis
  proof (cases "encode lib (JPEG 85 True) (resized img px)")
    case (Inl err)
    let ?s0 = "s\<lparr>files := (files s)(p := (if files s p = None then None else Some [])),
                  trace := trace s @ [Opened bk, Saved p (JPEG 85 True) (resized img px)]\<rparr>"
    have r: "reduce_dimensions lib p bk s = Inl (err, ?s0)"
      unfolding reduce_dimensions_def using assms Inl \<open>resize_px lib img _ _ = Inr px\<close>
      by (simp add: io_defs Let_def resized_def)
    have "files ?s0 bk = Some data" using assms by simp
    then show ?thesis unfolding r using ev by auto
  next
    case (Inr out)
    have r: "reduce_dimensions lib p bk s =
           Inr ((p, kb out),
                s\<lparr>files := (files s)(p \<mapsto> out, bk := None),
                  trace := trace s @
                    [Opened bk, Saved p (JPEG 85 True) (resized img px), Unlinked bk]\<rparr>)"
      by (rule reduce_dimensions_run[OF assms(1-3) \<open>resize_px lib img _ _ = Inr px\<close> Inr assms(4)])
    show ?thesis unfolding r using ev
      by (auto intro!: exI[of _ "[Opened bk, Saved p (JPEG 85 True) (resized img px)]"])
  qed
qed

lemma run_event_png: "run_event lib img p bk (Saved p f img)"
  by (simp add: run_event_def encodes_original_def)

lemma compress_image_outcome:
  assumes "files s p = Some data" and "decode lib data = Inr im"
    and "convert_rgba lib im = Inr img" and "with_suffix p ''.backup.png'' = Inr bk"
  shows "(\<forall>e s'. compress_image lib p k s = Inl (e, s') \<longrightarrow>
            files s' bk = Some data \<and>
            (\<exists>evs. trace s' = trace s @ [Opened p, Renamed p bk] @ evs \<and>
                   (\<forall>x\<in>set evs. run_event lib img p bk x))) \<and>
         (\<forall>r s'. compress_image lib p k s = Inr (r, s') \<longrightarrow>
            files s' bk = None \<and>
            (\<exists>evs. trace s' = trace s @ [Opened p, Renamed p bk] @ evs @ [Unlinked bk] \<and>
                   (\<forall>x\<in>set evs. run_event lib img p bk x)))"
proof -
  have ne: "bk \<noteq> p" using assms(4) by (rule with_suffix_neq)
  show ?thesis
  proof (cases "encode lib (PNG True 9) img")
    case (Inl err)
    let ?s0 = "s\<lparr>files := (files s)(p := None, bk \<mapsto> data),
                  trace := trace s @ [Opened p, Renamed p bk, Saved p (PNG True 9) img]\<rparr>"
    have r: "compress_image lib p k s = Inl (err, ?s0)"
      unfolding compress_image_def using assms ne Inl by (simp add: io_defs)
    have "trace ?s0 = trace s @ [Opened p, Renamed p bk] @ [Saved p (PNG True 9) img]" by simp
    moreover have "\<forall>x\<in>set [Saved p (PNG True 9) img]. run_event lib img p bk x"
      by (simp add: run_event_png)
    moreover have "files ?s0 bk = Some data" by simp
    ultimately show ?thesis unfolding r by blast
  next
    case (Inr png)
    show ?thesis
    proof (cases "kb png < of_int k")
      case True
      have f: "(files s)(p := None, bk \<mapsto> data, p \<mapsto> png, bk := None) =
               (files s)(bk := None, p \<mapsto> png)"
        using ne by (auto simp: fun_eq_iff)
      let ?s0 = "s\<lparr>files := (files s)(bk := None, p \<mapsto> png),
                  trace := trace s @
                    [Opened p, Renamed p bk, Saved p (PNG True 9) img, Unlinked bk]\<rparr>"
      have r: "compress_image lib p k s = Inr ((p, kb png), ?s0)"
        unfolding compress_image_def
        using assms ne f Inr True by (simp add: io_defs kb_def[symmetric])
      have "trace ?s0 = trace s @ [Opened p, Renamed p bk] @ [Saved p (PNG True 9) img]
                          @ [Unlinked bk]" by simp
      moreover have "\<forall>x\<in>set [Saved p (PNG True 9) img]. run_event lib img p bk x"
        by (simp add: run_event_png)
      moreover have "files ?s0 bk = None" using ne by simp
      ultimately show ?thesis unfolding r by blast
    next
      case False
      let ?s1 = "s\<lparr>files := (files s)(p \<mapsto> png, bk \<mapsto> data),
                trace := trace s @ [Opened p, Renamed p bk, Saved p (PNG True 9) img]\<rparr>"
      have b1: "files ?s1 bk = Some data" by simp
      have t1: "trace ?s1 = trace s @ [Opened p, Renamed p bk] @ [Saved p (PNG True 9) img]"
        by simp
      note loop = try_jpeg_outcome[OF b1 ne, of lib img k quality_ladder]
      note unf = after_rename[OF assms Inr False]
      show ?thesis
      proof (cases "try_jpeg lib img p bk k quality_ladder ?s1")
        case (Inl x)
        obtain err s' where x: "x = (err, s')" by (cases x)
        have r: "compress_image lib p k s = Inl (err, s')"
          unfolding unf using Inl x by (simp add: io_bind_def del: try_jpeg.simps)
        from loop Inl x obtain qs' where "files s' bk = Some data"
          "trace s' = trace ?s1 @ jpeg_saves p img qs'" by blast
        then have "files s' bk = Some data"
          "trace s' = trace s @ [Opened p, Renamed p bk] @
                        (Saved p (PNG True 9) img # jpeg_saves p img qs')" by simp_all
        moreover have "\<forall>x\<in>set (Saved p (PNG True 9) img # jpeg_saves p img qs').
                          run_event lib img p bk x"
          using run_event_jpeg_saves[of p img qs' lib bk] by (simp add: run_event_png)
        ultimately show ?thesis unfolding r by blast
      next
        case (Inr y)
        obtain res s2 where y: "y = (res, s2)" by (cases y)
        show ?thesis
        proof (cases res)
          case (Some out)
          have r: "compress_image lib p k s = Inr (out, s2)"
            unfolding unf using Inr y Some
            by (simp add: io_bind_def io_return_def del: try_jpeg.simps)
          from loop Inr y Some obtain qs' where "files s2 bk = None"
            "trace s2 = trace ?s1 @ jpeg_saves p img qs' @ [Unlinked bk]" by blast
          then have "files s2 bk = None"
            "trace s2 = trace s @ [Opened p, Renamed p bk] @
                        (Saved p (PNG True 9) img # jpeg_saves p img qs') @ [Unlinked bk]"
            by simp_all
          moreover have "\<forall>x\<in>set (Saved p (PNG True 9) img # jpeg_saves p img qs').
                          run_event lib img p bk x"
            using run_event_jpeg_saves[of p img qs' lib bk] by (simp add: run_event_png)
          ultimately show ?thesis unfolding r by blast
        next
          case None
          have r: "compress_image lib p k s = reduce_dimensions lib p bk s2"
            unfolding unf using Inr y None
            by (simp add: io_bind_def del: try_jpeg.simps)
          from loop Inr y None have b2: "files s2 bk = Some data"
            and t2: "trace s2 = trace ?s1 @ jpeg_saves p img quality_ladder" by blast+
          let ?pre = "Saved p (PNG True 9) img # jpeg_saves p img quality_ladder"
          have pre: "\<forall>x\<in>set ?pre. run_event lib img p bk x"
            using run_event_jpeg_saves[of p img quality_ladder lib bk]
            by (simp add: run_event_png)
          have t2': "trace s2 = trace s @ [Opened p, Renamed p bk] @ ?pre"
            using t2 by simp
          note last = reduce_dimensions_outcome[OF b2 assms(2,3) ne]
          have "\<forall>e s'. reduce_dimensions lib p bk s2 = Inl (e, s') \<longrightarrow>
            files s' bk = Some data \<and>
            (\<exists>evs. trace s' = trace s @ [Opened p, Renamed p bk] @ evs \<and>
                   (\<forall>x\<in>set evs. run_event lib img p bk x))"
          proof (intro allI impI)
            fix e s' assume "reduce_dimensions lib p bk s2 = Inl (e, s')"
            with last obtain evs where "files s' bk = Some data"
              "trace s' = trace s2 @ evs" "\<forall>x\<in>set evs. run_event lib img p bk x" by blast
            then have "files s' bk = Some data"
              "trace s' = trace s @ [Opened p, Renamed p bk] @ (?pre @ evs)"
              "\<forall>x\<in>set (?pre @ evs). run_event lib img p bk x"
              using t2' pre by auto
            then show "files s' bk = Some data \<and>
              (\<exists>evs. trace s' = trace s @ [Opened p, Renamed p bk] @ evs \<and>
                   (\<forall>x\<in>set evs. run_event lib img p bk x))" by blast
          qed
          moreover have "\<forall>r s'. reduce_dimensions lib p bk s2 = Inr (r, s') \<longrightarrow>
            files s' bk = None \<and>
            (\<exists>evs. trace s' = trace s @ [Opened p, Renamed p bk] @ evs @ [Unlinked bk] \<and>
                   (\<forall>x\<in>set evs. run_event lib img p bk x))"
          proof (intro allI impI)
            fix r s' assume "reduce_dimensions lib p bk s2 = Inr (r, s')"
            with last obtain evs where "files s' bk = None"
              "trace s' = trace s2 @ evs @ [Unlinked bk]"
              "\<forall>x\<in>set evs. run_event lib img p bk x" by blast
            then have "files s' bk = None"
              "trace s' = trace s @ [Opened p, Renamed p bk] @ (?pre @ evs) @ [Unlinked bk]"
              "\<forall>x\<in>set (?pre @ evs). run_event lib img p bk x"
              using t2' pre by auto
            then show "files s' bk = None \<and>
              (\<exists>evs. trace s' = trace s @ [Opened p, Renamed p bk] @ evs @ [Unlinked bk] \<and>
                   (\<forall>x\<in>set evs. run_event lib img p bk x))" by blast
          qed
          ultimately show ?thesis unfolding r by blast
        qed
      qed
    qed
  qed
qed

lemma compress_image_early:
  "(\<exists>data im img bk. files s p = Some data \<and> decode lib data = Inr im \<and>
       convert_rgba lib im = Inr img \<and> with_suffix p ''.backup.png'' = Inr bk) \<or>
   (\<exists>e. compress_image lib p k s = Inl (e, s)) \<or>
   (\<exists>e. compress_image lib p k s = Inl (e, s\<lparr>trace := trace s @ [Opened p]\<rparr>))"
proof (cases "files s p")
  case None
  then have "compress_image lib p k s = Inl (FileNotFoundError, s)"
    unfolding compress_image_def by (simp add: io_bind_def Image_open_def)
  then show ?thesis by blast
next
  case (Some data)
  show ?thesis
  proof (cases "decode lib data")
    case (Inl e)
    then have "compress_image lib p k s = Inl (e, s)"
      unfolding compress_image_def using Some by (simp add: io_bind_def Image_open_def)
    then show ?thesis by blast
  next
    case (Inr im)
    note im = Inr
    show ?thesis
    proof (cases "convert_rgba lib im")
      case (Inl e)
      then have "compress_image lib p k s = Inl (e, s\<lparr>trace := trace s @ [Opened p]\<rparr>)"
        unfolding compress_image_def using Some im by (simp add: io_defs)
      then show ?thesis by blast
    next
      case (Inr img)
      note img = Inr
      show ?thesis
      proof (cases "with_suffix p ''.backup.png''")
        case (Inl e)
        then have "compress_image lib p k s = Inl (e, s\<lparr>trace := trace s @ [Opened p]\<rparr>)"
          unfolding compress_image_def using Some im img by (simp add: io_defs)
        then show ?thesis by blast
      next
        case (Inr bk)
        with Some im img show ?thesis by blast
      qed
    qed
  qed
qed

lemma run_event_not_unlinked: "run_event lib img p bk x \<Longrightarrow> x \<noteq> Unlinked q"
  by (auto simp: run_event_def)

lemma run_event_not_renamed: "run_event lib img p bk x \<Longrightarrow> x \<noteq> Renamed a b"
  by (auto simp: run_event_def)

lemma count_list_none: "x \<notin> set xs \<Longrightarrow> count_list xs x = 0"
  by (induction xs) auto

lemma saved_event_image:
  "\<forall>q f x. Saved q f x \<in> set (new_events s (final_state (compress_image lib p k s))) \<longrightarrow>
     (\<exists>data im img. files s p = Some data \<and> decode lib data = Inr im \<and>
        convert_rgba lib im = Inr img \<and> q = p \<and> encodes_original lib img x)"
proof (intro allI impI)
  fix q f x
  let ?r = "compress_image lib p k s"
  assume sv: "Saved q f x \<in> set (new_events s (final_state ?r))"
  have "\<not> (\<exists>e. ?r = Inl (e, s))"
    using sv by (auto simp: new_events_def final_state_def)
  moreover have "\<not> (\<exists>e. ?r = Inl (e, s\<lparr>trace := trace s @ [Opened p]\<rparr>))"
    using sv by (auto simp: new_events_def final_state_def)
  ultimately obtain data im img bk where
    h: "files s p = Some data" "decode lib data = Inr im" "convert_rgba lib im = Inr img"
       "with_suffix p ''.backup.png'' = Inr bk"
    using compress_image_early[of s p lib k] by blast
  note out = compress_image_outcome[OF h, of k]
  have "\<exists>evs. Saved q f x \<in> set evs \<and> (\<forall>y\<in>set evs. run_event lib img p bk y)"
  proof (cases ?r)
    case (Inl a)
    obtain e s' where a: "a = (e, s')" by (cases a)
    from out Inl a obtain evs where
      tr: "trace s' = trace s @ [Opened p, Renamed p bk] @ evs"
      and ev: "\<forall>y\<in>set evs. run_event lib img p bk y" by blast
    have "new_events s (final_state ?r) = [Opened p, Renamed p bk] @ evs"
      using Inl a tr by (simp add: new_events_def final_state_def)
    with sv ev show ?thesis by auto
  next
    case (Inr b)
    obtain r s' where b: "b = (r, s')" by (cases b)
    from out Inr b obtain evs where
      tr: "trace s' = trace s @ [Opened p, Renamed p bk] @ evs @ [Unlinked bk]"
      and ev: "\<forall>y\<in>set evs. run_event lib img p bk y" by blast
    have "new_events s (final_state ?r) = [Opened p, Renamed p bk] @ evs @ [Unlinked bk]"
      using Inr b tr by (simp add: new_events_def final_state_def)
    with sv ev show ?thesis by auto
  qed
  then have "q = p \<and> encodes_original lib img x"
    by (auto simp: run_event_def)
  with h show "\<exists>data im img. files s p = Some data \<and> decode lib data = Inr im \<and>
        convert_rgba lib im = Inr img \<and> q = p \<and> encodes_original lib img x" by blast
qed

lemma convert_rgba_mode:
  "convert_rgba lib im = Inr img \<Longrightarrow> mode img \<noteq> ''RGBA''"
  by (auto simp: convert_rgba_def Let_def split: if_splits)

lemma convert_rgba_idem:
  "convert_rgba lib im = Inr img \<Longrightarrow> convert_rgba lib img = Inr img"
  using convert_rgba_mode[of lib im img] by (simp add: convert_rgba_def)

lemma encodes_original_mode: "encodes_original lib img x \<Longrightarrow> mode x = mode img"
  by (auto simp: encodes_original_def resized_def split: sum.splits)

text \<open>What the flattening returns, and the run in which it raises.\<close>

lemma convert_rgba_eq:
  assumes "convert_rgba lib im = Inr img"
  shows "img =
     (if mode im = ''RGBA''
      then \<lparr>mode = ''RGB'', im_size = im_size im,
            pixels = paste_px lib
              \<lparr>mode = ''RGB'', im_size = im_size im,
               pixels = new_px lib ''RGB'' (im_size im) (255, 255, 255)\<rparr>
              im
              \<lparr>mode = ''L'', im_size = im_size im, pixels = split_px lib im ! 3\<rparr>\<rparr>
      else im)"
  using assms by (auto simp: convert_rgba_def Let_def split: if_splits)

lemma convert_rgba_raises:
  assumes "files s p = Some data" and "decode lib data = Inr im"
    and "convert_rgba lib im = Inl e"
  shows "compress_image lib p k s = Inl (e, s\<lparr>trace := trace s @ [Opened p]\<rparr>)"
  unfolding compress_image_def using assms by (simp add: io_defs)

text \<open>Runs of the small codec, computed.\<close>

lemmas demo_eval = compress_image_def reduce_dimensions_def io_defs demo_state_def demo_file_def
  demo_pil_def demo_encode_def demo_tag_def convert_rgba_def with_suffix_backup name_def
  stem_def rfind_dot_def lstrip_dots_def kb_def scale_dim_def Let_def

lemma demo_run_small:
  "compress_image demo_pil [''og-banner.png''] 1
       (demo_state [''og-banner.png''] (demo_file 0 4 4)) =
     Inr (([''og-banner.png''], 5 / 256),
          \<lparr>files = [[''og-banner.png''] \<mapsto> [0, 0, 4, 4] @ replicate 16 7],
           trace = [Opened [''og-banner.png''],
                    Renamed [''og-banner.png''] [''og-banner.backup.png''],
                    Saved [''og-banner.png''] (PNG True 9)
                      \<lparr>mode = ''RGB'', im_size = (4, 4), pixels = replicate 16 7\<rparr>,
                    Unlinked [''og-banner.backup.png'']]\<rparr>)"
  by (simp add: demo_eval fun_eq_iff)

lemma demo_run_la:
  "compress_image demo_pil [''og-banner.png''] 1
       (demo_state [''og-banner.png''] (demo_file 2 60 40)) =
     Inl (OSError,
          \<lparr>files = [[''og-banner.png''] \<mapsto> [],
                    [''og-banner.backup.png''] \<mapsto> demo_file 2 60 40],
           trace = [Opened [''og-banner.png''],
                    Renamed [''og-banner.png''] [''og-banner.backup.png''],
                    Saved [''og-banner.png''] (PNG True 9)
                      \<lparr>mode = ''LA'', im_size = (60, 40), pixels = replicate 2400 7\<rparr>,
                    Saved [''og-banner.png''] (JPEG 95 True)
                      \<lparr>mode = ''LA'', im_size = (60, 40), pixels = replicate 2400 7\<rparr>]\<rparr>)"
  by (simp add: demo_eval fun_eq_iff)

lemma demo_run_large:
  "compress_image demo_pil [''og-banner.png''] 1
       (demo_state [''og-banner.png''] (demo_file 0 60 40)) =
     Inr (([''og-banner.png''], 1309 / 1024),
          \<lparr>files = [[''og-banner.png''] \<mapsto> [1, 0, 48, 32] @ replicate 1305 7],
           trace = [Opened [''og-banner.png''],
                    Renamed [''og-banner.png''] [''og-banner.backup.png''],
                    Saved [''og-banner.png''] (PNG True 9)
                      \<lparr>mode = ''RGB'', im_size = (60, 40), pixels = replicate 2400 7\<rparr>]
                   @ jpeg_saves [''og-banner.png'']
                       \<lparr>mode = ''RGB'', im_size = (60, 40), pixels = replicate 2400 7\<rparr>
                       [95, 85, 75, 65, 55, 45]
                   @ [Opened [''og-banner.backup.png''],
                      Saved [''og-banner.png''] (JPEG 85 True)
                        \<lparr>mode = ''RGB'', im_size = (48, 32), pixels = replicate 1536 7\<rparr>,
                      Unlinked [''og-banner.backup.png'']]\<rparr>)"
  by (simp add: demo_eval jpeg_saves_def fun_eq_iff)

lemma demo_banner: "banner_path [''scripts'', ''compress_og_banner.py''] = [''public'', ''og-banner.png'']"
  by (simp add: banner_path_def joinpath_def parent_def)

lemma demo_run_banner:
  "compress_image demo_pil [''public'', ''og-banner.png''] 300
       (demo_state [''public'', ''og-banner.png''] (demo_file 0 4 4)) =
     Inr (([''public'', ''og-banner.png''], 5 / 256),
          \<lparr>files = [[''public'', ''og-banner.png''] \<mapsto> [0, 0, 4, 4] @ replicate 16 7],
           trace = [Opened [''public'', ''og-banner.png''],
                    Renamed [''public'', ''og-banner.png''] [''public'', ''og-banner.backup.png''],
                    Saved [''public'', ''og-banner.png''] (PNG True 9)
                      \<lparr>mode = ''RGB'', im_size = (4, 4), pixels = replicate 16 7\<rparr>,
                    Unlinked [''public'', ''og-banner.backup.png'']]\<rparr>)"
  by (simp add: demo_eval fun_eq_iff)

lemma demo_run_garbage:
  "compress_image demo_pil [''public'', ''og-banner.png''] 300
       (demo_state [''public'', ''og-banner.png''] [1, 2, 3]) =
     Inl (UnidentifiedImageError, demo_state [''public'', ''og-banner.png''] [1, 2, 3])"
  by (simp add: demo_eval)

lemma demo_run_jpg_name:
  "compress_image demo_pil [''og-banner.jpg''] 1
       (demo_state [''og-banner.jpg''] (demo_file 0 4 4)) =
     Inr (([''og-banner.jpg''], 5 / 256),
          \<lparr>files = [[''og-banner.jpg''] \<mapsto> [0, 0, 4, 4] @ replicate 16 7],
           trace = [Opened [''og-banner.jpg''],
                    Renamed [''og-banner.jpg''] [''og-banner.backup.png''],
                    Saved [''og-banner.jpg''] (PNG True 9)
                      \<lparr>mode = ''RGB'', im_size = (4, 4), pixels = replicate 16 7\<rparr>,
                    Unlinked [''og-banner.backup.png'']]\<rparr>)"
  by (simp add: demo_eval fun_eq_iff)

lemma demo_run_medium:
  "compress_image demo_pil [''og-banner.png''] 1
       (demo_state [''og-banner.png''] (demo_file 0 40 30)) =
     Inr (([''og-banner.png''], 113 / 128),
          \<lparr>files = [[''og-banner.png''] \<mapsto> [1, 0, 40, 30] @ replicate 900 7],
           trace = [Opened [''og-banner.png''],
                    Renamed [''og-banner.png''] [''og-banner.backup.png''],
                    Saved [''og-banner.png''] (PNG True 9)
                      \<lparr>mode = ''RGB'', im_size = (40, 30), pixels = replicate 1200 7\<rparr>]
                   @ jpeg_saves [''og-banner.png'']
                      \<lparr>mode = ''RGB'', im_size = (40, 30), pixels = replicate 1200 7\<rparr>
                      [95, 85, 75]
                   @ [Unlinked [''og-banner.backup.png'']]\<rparr>)"
  by (simp add: demo_eval jpeg_saves_def fun_eq_iff)

lemma demo_run_again:
  "new_events
     \<lparr>files = [[''og-banner.png''] \<mapsto> [1, 0, 40, 30] @ replicate 900 7],
      trace = [Opened [''og-banner.png''],
               Renamed [''og-banner.png''] [''og-banner.backup.png''],
               Saved [''og-banner.png''] (PNG True 9)
                 \<lparr>mode = ''RGB'', im_size = (40, 30), pixels = replicate 1200 7\<rparr>]
              @ jpeg_saves [''og-banner.png'']
                 \<lparr>mode = ''RGB'', im_size = (40, 30), pixels = replicate 1200 7\<rparr>
                 [95, 85, 75]
              @ [Unlinked [''og-banner.backup.png'']]\<rparr>
     (final_state (compress_image demo_pil [''og-banner.png''] 1
       \<lparr>files = [[''og-banner.png''] \<mapsto> [1, 0, 40, 30] @ replicate 900 7],
        trace = [Opened [''og-banner.png''],
                 Renamed [''og-banner.png''] [''og-banner.backup.png''],
                 Saved [''og-banner.png''] (PNG True 9)
                   \<lparr>mode = ''RGB'', im_size = (40, 30), pixels = replicate 1200 7\<rparr>]
                @ jpeg_saves [''og-banner.png'']
                   \<lparr>mode = ''RGB'', im_size = (40, 30), pixels = replicate 1200 7\<rparr>
                   [95, 85, 75]
                @ [Unlinked [''og-banner.backup.png'']]\<rparr>)) =
     [Opened [''og-banner.png''],
      Renamed [''og-banner.png''] [''og-banner.backup.png''],
      Saved [''og-banner.png''] (PNG True 9)
        \<lparr>mode = ''RGB'', im_size = (40, 30), pixels = replicate 900 7 @ replicate 300 0\<rparr>]
     @ jpeg_saves [''og-banner.png'']
        \<lparr>mode = ''RGB'', im_size = (40, 30), pixels = replicate 900 7 @ replicate 300 0\<rparr>
        [95, 85, 75]
     @ [Unlinked [''og-banner.backup.png'']]"
  by (simp add: demo_eval jpeg_saves_def final_state_def new_events_def)

section \<open>The lossless stage\<close>

text \<open>
  Claim C2. Let the input decode, and let its lossless re-encode (PNG, optimize, compression
  level 9) pass the test of line 44. Then the run returns at the lossless stage: after the
  open and the rename it saves the PNG, unlinks the backup and returns the path with the
  size of the PNG; no JPEG is ever encoded, the file at the path is the PNG, the backup is
  gone, and the PNG has strictly fewer bytes than 1024 times the budget.
\<close>

theorem lossless_stage_accepts:
  assumes "files s p = Some data" and "decode lib data = Inr im"
    and "convert_rgba lib im = Inr img" and "with_suffix p ''.backup.png'' = Inr bk"
    and "encode lib (PNG True 9) img = Inr png"
    and "kb png < of_int max_size_kb"
  shows "compress_image lib p max_size_kb s =
           Inr ((p, kb png),
                s\<lparr>files := (files s)(bk := None, p \<mapsto> png),
                  trace := trace s @
                    [Opened p, Renamed p bk, Saved p (PNG True 9) img, Unlinked bk]\<rparr>)
         \<and> int (length png) < max_size_kb * 1024"
  using lossless_run[OF assms] assms(6) by (simp add: kb_less)

text \<open>A 4 by 4 image of 20 bytes against a budget of one kilobyte.\<close>

theorem lossless_stage_accepts_witness:
  "compress_image demo_pil [''og-banner.png''] 1
       (demo_state [''og-banner.png''] (demo_file 0 4 4)) =
     Inr (([''og-banner.png''], 5 / 256),
          \<lparr>files = [[''og-banner.png''] \<mapsto> [0, 0, 4, 4] @ replicate 16 7],
           trace = [Opened [''og-banner.png''],
                    Renamed [''og-banner.png''] [''og-banner.backup.png''],
                    Saved [''og-banner.png''] (PNG True 9)
                      \<lparr>mode = ''RGB'', im_size = (4, 4), pixels = replicate 16 7\<rparr>,
                    Unlinked [''og-banner.backup.png'']]\<rparr>)"
proof -
  let ?p = "[''og-banner.png'']"
  let ?img = "\<lparr>mode = ''RGB'', im_size = (4, 4), pixels = replicate 16 (7 :: 8 word)\<rparr>"
  let ?png = "[0, 0, 4, 4] @ replicate 16 (7 :: 8 word)"
  have 1: "files (demo_state ?p (demo_file 0 4 4)) ?p = Some (demo_file 0 4 4)"
    by (simp add: demo_state_def)
  have 2: "decode demo_pil (demo_file 0 4 4) = Inr ?img"
    by (simp add: demo_pil_def demo_file_def)
  have 3: "convert_rgba demo_pil ?img = Inr ?img"
    by (simp add: convert_rgba_def)
  have 4: "with_suffix ?p ''.backup.png'' = Inr [''og-banner.backup.png'']"
    by (simp add: with_suffix_backup name_def stem_def rfind_dot_def lstrip_dots_def)
  have 5: "encode demo_pil (PNG True 9) ?img = Inr ?png"
    by (simp add: demo_pil_def demo_encode_def demo_tag_def)
  have 6: "kb ?png < of_int 1" by (simp add: kb_def)
  have 7: "[?p \<mapsto> demo_file 0 4 4]([''og-banner.backup.png''] := None, ?p \<mapsto> ?png) =
           [?p \<mapsto> ?png]"
    by (auto simp: fun_eq_iff)
  show ?thesis
    using lossless_stage_accepts[OF 1 2 3 4 5 6] 7 by (simp add: kb_def demo_state_def)
qed

section \<open>The quality ladder\<close>

text \<open>
  Claim C1. Let the lossless stage not satisfy the budget: the PNG has at least 1024 times
  the budget bytes. Let \<open>q\<close> be a level of the ladder 95, 85, 75, 65, 55, 45 whose JPEG
  has strictly fewer bytes than 1024 times the budget, while every level before \<open>q\<close> in
  the ladder gave a JPEG of at least that many bytes (equality included: a tie fails).
  Then the run accepts at \<open>q\<close>: it has encoded the levels before \<open>q\<close> and \<open>q\<close>, in
  this order and no level after \<open>q\<close>, the file at the path is the JPEG of level \<open>q\<close>,
  the backup is unlinked, and the size returned is that of this JPEG.
\<close>

theorem quality_ladder_first_fit:
  assumes "files s p = Some data" and "decode lib data = Inr im"
    and "convert_rgba lib im = Inr img" and "with_suffix p ''.backup.png'' = Inr bk"
    and "encode lib (PNG True 9) img = Inr png"
    and "max_size_kb * 1024 \<le> int (length png)"
    and "quality_ladder = pre @ q # post"
    and "\<forall>q'\<in>set pre. \<exists>d'. encode lib (JPEG q' True) img = Inr d' \<and>
                         max_size_kb * 1024 \<le> int (length d')"
    and "encode lib (JPEG q True) img = Inr d"
    and "int (length d) < max_size_kb * 1024"
  shows "compress_image lib p max_size_kb s =
           Inr ((p, kb d),
                s\<lparr>files := (files s)(bk := None, p \<mapsto> d),
                  trace := trace s @ [Opened p, Renamed p bk, Saved p (PNG True 9) img]
                             @ jpeg_saves p img (pre @ [q]) @ [Unlinked bk]\<rparr>)"
proof -
  let ?s1 = "s\<lparr>files := (files s)(p \<mapsto> png, bk \<mapsto> data),
                trace := trace s @ [Opened p, Renamed p bk, Saved p (PNG True 9) img]\<rparr>"
  have ne: "bk \<noteq> p" using assms(4) by (rule with_suffix_neq)
  have over: "\<not> kb png < of_int max_size_kb" using assms(6) by (simp add: bytes_kb)
  have pre: "\<forall>q'\<in>set pre. \<exists>d'. encode lib (JPEG q' True) img = Inr d' \<and>
                \<not> kb d' < of_int max_size_kb"
    using assms(8) by (simp add: bytes_kb)
  have fit: "kb d < of_int max_size_kb" using assms(10) by (simp add: kb_less)
  have bk: "files ?s1 bk = Some data" by simp
  have loop: "try_jpeg lib img p bk max_size_kb quality_ladder ?s1 =
           Inr (Some (p, kb d),
                ?s1\<lparr>files := (files ?s1)(bk := None, p \<mapsto> d),
                  trace := trace ?s1 @ jpeg_saves p img (pre @ [q]) @ [Unlinked bk]\<rparr>)"
    unfolding assms(7) by (rule try_jpeg_accept[OF pre assms(9) fit bk ne])
  have f: "(files s)(p \<mapsto> png, bk \<mapsto> data, bk := None, p \<mapsto> d) = (files s)(bk := None, p \<mapsto> d)"
    by (auto simp: fun_eq_iff)
  have "compress_image lib p max_size_kb s =
          Inr ((p, kb d),
                ?s1\<lparr>files := (files ?s1)(bk := None, p \<mapsto> d),
                  trace := trace ?s1 @ jpeg_saves p img (pre @ [q]) @ [Unlinked bk]\<rparr>)"
    unfolding after_rename[OF assms(1-5) over]
    by (simp add: io_bind_def loop io_return_def del: try_jpeg.simps)
  also have "?s1\<lparr>files := (files ?s1)(bk := None, p \<mapsto> d),
                  trace := trace ?s1 @ jpeg_saves p img (pre @ [q]) @ [Unlinked bk]\<rparr> =
             s\<lparr>files := (files s)(bk := None, p \<mapsto> d),
                  trace := trace s @ [Opened p, Renamed p bk, Saved p (PNG True 9) img]
                             @ jpeg_saves p img (pre @ [q]) @ [Unlinked bk]\<rparr>"
    by (simp add: f)
  finally show ?thesis .
qed

text \<open>
  A 40 by 30 image against a budget of one kilobyte: the PNG has 1204 bytes, level 95
  gives 1144 bytes, level 85 gives exactly 1024 bytes and fails, level 75 gives 904 bytes
  and is accepted.
\<close>

theorem quality_ladder_first_fit_witness:
  "compress_image demo_pil [''og-banner.png''] 1
       (demo_state [''og-banner.png''] (demo_file 0 40 30)) =
     Inr (([''og-banner.png''], 113 / 128),
          \<lparr>files = [[''og-banner.png''] \<mapsto> [1, 0, 40, 30] @ replicate 900 7],
           trace = [Opened [''og-banner.png''],
                    Renamed [''og-banner.png''] [''og-banner.backup.png''],
                    Saved [''og-banner.png''] (PNG True 9)
                      \<lparr>mode = ''RGB'', im_size = (40, 30), pixels = replicate 1200 7\<rparr>,
                    Saved [''og-banner.png''] (JPEG 95 True)
                      \<lparr>mode = ''RGB'', im_size = (40, 30), pixels = replicate 1200 7\<rparr>,
                    Saved [''og-banner.png''] (JPEG 85 True)
                      \<lparr>mode = ''RGB'', im_size = (40, 30), pixels = replicate 1200 7\<rparr>,
                    Saved [''og-banner.png''] (JPEG 75 True)
                      \<lparr>mode = ''RGB'', im_size = (40, 30), pixels = replicate 1200 7\<rparr>,
                    Unlinked [''og-banner.backup.png'']]\<rparr>)
   \<and> encode demo_pil (JPEG 85 True)
         \<lparr>mode = ''RGB'', im_size = (40, 30), pixels = replicate 1200 7\<rparr> =
       Inr ([1, 0, 40, 30] @ replicate 1020 7)
   \<and> int (length ([1, 0, 40, 30] @ replicate 1020 (7 :: 8 word))) = 1 * 1024"
proof -
  let ?p = "[''og-banner.png'']"
  let ?img = "\<lparr>mode = ''RGB'', im_size = (40, 30), pixels = replicate 1200 (7 :: 8 word)\<rparr>"
  let ?png = "[0, 0, 40, 30] @ replicate 1200 (7 :: 8 word)"
  let ?d = "[1, 0, 40, 30] @ replicate 900 (7 :: 8 word)"
  have 1: "files (demo_state ?p (demo_file 0 40 30)) ?p = Some (demo_file 0 40 30)"
    by (simp add: demo_state_def)
  have 2: "decode demo_pil (demo_file 0 40 30) = Inr ?img"
    by (simp add: demo_pil_def demo_file_def)
  have 3: "convert_rgba demo_pil ?img = Inr ?img"
    by (simp add: convert_rgba_def)
  have 4: "with_suffix ?p ''.backup.png'' = Inr [''og-banner.backup.png'']"
    by (simp add: with_suffix_backup name_def stem_def rfind_dot_def lstrip_dots_def)
  have 5: "encode demo_pil (PNG True 9) ?img = Inr ?png"
    by (simp add: demo_pil_def demo_encode_def demo_tag_def)
  have 6: "1 * 1024 \<le> int (length ?png)" by simp
  have 7: "quality_ladder = [95, 85] @ 75 # [65, 55, 45]" by (simp add: quality_ladder_def)
  have 8: "\<forall>q'\<in>set [95, 85]. \<exists>d'. encode demo_pil (JPEG q' True) ?img = Inr d' \<and>
             1 * 1024 \<le> int (length d')"
    by (simp add: demo_pil_def demo_encode_def)
  have 9: "encode demo_pil (JPEG 75 True) ?img = Inr ?d"
    by (simp add: demo_pil_def demo_encode_def)
  have 10: "int (length ?d) < 1 * 1024" by simp
  have f: "[?p \<mapsto> demo_file 0 40 30]([''og-banner.backup.png''] := None, ?p \<mapsto> ?d) =
           [?p \<mapsto> ?d]"
    by (auto simp: fun_eq_iff)
  show ?thesis
    using quality_ladder_first_fit[OF 1 2 3 4 5 6 7 8 9 10] f
    by (simp add: kb_def demo_state_def jpeg_saves_def demo_pil_def demo_encode_def)
qed

section \<open>The dimension reduction\<close>

text \<open>
  Claim C3 says that on every input on which the six attempts fail the run produces an
  output of \<open>floor(0.8 w)\<close> by \<open>floor(0.8 h)\<close>. For a width or a height of 1 that floor
  is 0; lines 73 to 75 ask the library for an image with an empty side, the library
  refuses, and the run raises \<open>ValueError\<close> after the six attempts, with the original at
  the backup path and the last JPEG of the ladder at the input path. Here: an image one
  pixel wide whose file carries 2400 bytes of data, against a budget of one kilobyte.
\<close>

theorem downscale_one_pixel_counterexample:
  "scale_dim 1 = 0 \<and>
   compress_image demo_pil [''og-banner.png''] 1
       (demo_state [''og-banner.png''] ([0, 0, 1, 255] @ replicate 2400 7)) =
     Inl (ValueError,
          \<lparr>files = [[''og-banner.png''] \<mapsto> [1, 0, 1, 255] @ replicate 1080 7,
                    [''og-banner.backup.png''] \<mapsto> [0, 0, 1, 255] @ replicate 2400 7],
           trace = [Opened [''og-banner.png''],
                    Renamed [''og-banner.png''] [''og-banner.backup.png''],
                    Saved [''og-banner.png''] (PNG True 9)
                      \<lparr>mode = ''RGB'', im_size = (1, 255), pixels = replicate 2400 7\<rparr>]
                   @ jpeg_saves [''og-banner.png'']
                       \<lparr>mode = ''RGB'', im_size = (1, 255), pixels = replicate 2400 7\<rparr>
                       [95, 85, 75, 65, 55, 45]
                   @ [Opened [''og-banner.backup.png'']]\<rparr>) \<and>
   1 * 1024 \<le> int (length ([1, 0, 1, 255] @ replicate 1080 (7 :: 8 word)))"
proof -
  have a: "scale_dim 1 = 0" by (simp add: scale_dim_def)
  have b: "compress_image demo_pil [''og-banner.png''] 1
       (demo_state [''og-banner.png''] ([0, 0, 1, 255] @ replicate 2400 7)) =
     Inl (ValueError,
          \<lparr>files = [[''og-banner.png''] \<mapsto> [1, 0, 1, 255] @ replicate 1080 7,
                    [''og-banner.backup.png''] \<mapsto> [0, 0, 1, 255] @ replicate 2400 7],
           trace = [Opened [''og-banner.png''],
                    Renamed [''og-banner.png''] [''og-banner.backup.png''],
                    Saved [''og-banner.png''] (PNG True 9)
                      \<lparr>mode = ''RGB'', im_size = (1, 255), pixels = replicate 2400 7\<rparr>]
                   @ jpeg_saves [''og-banner.png'']
                       \<lparr>mode = ''RGB'', im_size = (1, 255), pixels = replicate 2400 7\<rparr>
                       [95, 85, 75, 65, 55, 45]
                   @ [Opened [''og-banner.backup.png'']]\<rparr>)"
    by (simp add: demo_eval jpeg_saves_def fun_eq_iff)
  have c: "1 * 1024 \<le> int (length ([1, 0, 1, 255] @ replicate 1080 (7 :: 8 word)))" by simp
  show ?thesis by (rule conjI[OF a conjI[OF b c]])
qed

text \<open>
  Claim C3, amended. Let the PNG and the JPEG of every one of the six levels have at least
  1024 times the budget bytes, and let the library return from the resize and from the
  last encode (PIL refuses a size with an empty side). Then, after the six attempts, the
  run opens the backup, which holds the original bytes, flattens the decoded image again,
  resizes it to \<open>floor(4 w / 5)\<close> by \<open>floor(4 h / 5)\<close> for the original size \<open>w\<close> by
  \<open>h\<close>, encodes the result once as JPEG at quality 85, unlinks the backup and returns.
  Nothing is assumed about the size of this last JPEG: it is accepted whatever it is. The
  image that is resized is the decoded original itself, or, when its mode is \<open>RGBA\<close>, the
  white \<open>RGB\<close> image onto which it was pasted with its fourth band as the mask.
\<close>

theorem downscale_fallback:
  assumes "files s p = Some data" and "decode lib data = Inr im"
    and "convert_rgba lib im = Inr img" and "with_suffix p ''.backup.png'' = Inr bk"
    and "encode lib (PNG True 9) img = Inr png"
    and "max_size_kb * 1024 \<le> int (length png)"
    and "\<forall>q\<in>set quality_ladder. \<exists>d. encode lib (JPEG q True) img = Inr d \<and>
                                  max_size_kb * 1024 \<le> int (length d)"
    and "resize_px lib img (scale_dim (fst (im_size img)), scale_dim (snd (im_size img)))
           LANCZOS = Inr px"
    and "encode lib (JPEG 85 True) (resized img px) = Inr out"
  shows "compress_image lib p max_size_kb s =
           Inr ((p, kb out),
                s\<lparr>files := (files s)(bk := None, p \<mapsto> out),
                  trace := trace s @ [Opened p, Renamed p bk, Saved p (PNG True 9) img]
                             @ jpeg_saves p img quality_ladder
                             @ [Opened bk, Saved p (JPEG 85 True) (resized img px),
                                Unlinked bk]\<rparr>)
         \<and> im_size (resized img px) =
             ((fst (im_size im) * 4) div 5, (snd (im_size im) * 4) div 5)
         \<and> img =
             (if mode im = ''RGBA''
              then \<lparr>mode = ''RGB'', im_size = im_size im,
                    pixels = paste_px lib
                      \<lparr>mode = ''RGB'', im_size = im_size im,
                       pixels = new_px lib ''RGB'' (im_size im) (255, 255, 255)\<rparr>
                      im
                      \<lparr>mode = ''L'', im_size = im_size im, pixels = split_px lib im ! 3\<rparr>\<rparr>
              else im)"
proof -
  have over: "\<not> kb png < of_int max_size_kb" using assms(6) by (simp add: bytes_kb)
  have all: "\<forall>q\<in>set quality_ladder. \<exists>d. encode lib (JPEG q True) img = Inr d \<and>
                \<not> kb d < of_int max_size_kb"
    using assms(7) by (simp add: bytes_kb)
  have "im_size img = im_size im" using assms(3) by (rule convert_rgba_size)
  then have dims: "im_size (resized img px) =
             ((fst (im_size im) * 4) div 5, (snd (im_size im) * 4) div 5)"
    by (simp add: resized_def scale_dim_def)
  note run = fallback_run[OF assms(1-5) over all assms(8,9)]
  note flat = convert_rgba_eq[OF assms(3)]
  show ?thesis by (rule conjI[OF run conjI[OF dims flat]])
qed

text \<open>
  A 50 by 50 image of mode \<open>RGBA\<close> against a budget of one kilobyte: every image that is
  encoded has mode \<open>RGB\<close>; level 45 still gives 1129 bytes; the image is resized to 40 by
  40 and encoded at quality 85 in 1364 bytes.
\<close>

theorem downscale_fallback_witness:
  "compress_image demo_pil [''og-banner.png''] 1
       (demo_state [''og-banner.png''] (demo_file 1 50 50)) =
     Inr (([''og-banner.png''], 341 / 256),
          \<lparr>files = [[''og-banner.png''] \<mapsto> [1, 0, 40, 40] @ replicate 1360 7],
           trace = [Opened [''og-banner.png''],
                    Renamed [''og-banner.png''] [''og-banner.backup.png''],
                    Saved [''og-banner.png''] (PNG True 9)
                      \<lparr>mode = ''RGB'', im_size = (50, 50), pixels = replicate 2500 7\<rparr>]
                   @ jpeg_saves [''og-banner.png'']
                       \<lparr>mode = ''RGB'', im_size = (50, 50), pixels = replicate 2500 7\<rparr>
                       [95, 85, 75, 65, 55, 45]
                   @ [Opened [''og-banner.backup.png''],
                      Saved [''og-banner.png''] (JPEG 85 True)
                        \<lparr>mode = ''RGB'', im_size = (40, 40), pixels = replicate 1600 7\<rparr>,
                      Unlinked [''og-banner.backup.png'']]\<rparr>)
   \<and> decode demo_pil (demo_file 1 50 50) =
       Inr \<lparr>mode = ''RGBA'', im_size = (50, 50), pixels = replicate 2500 7\<rparr>"
proof -
  let ?p = "[''og-banner.png'']"
  let ?im = "\<lparr>mode = ''RGBA'', im_size = (50, 50), pixels = replicate 2500 (7 :: 8 word)\<rparr>"
  let ?img = "\<lparr>mode = ''RGB'', im_size = (50, 50), pixels = replicate 2500 (7 :: 8 word)\<rparr>"
  let ?png = "[0, 0, 50, 50] @ replicate 2500 (7 :: 8 word)"
  let ?px = "replicate 1600 (7 :: 8 word)"
  let ?out = "[1, 0, 40, 40] @ replicate 1360 (7 :: 8 word)"
  have 1: "files (demo_state ?p (demo_file 1 50 50)) ?p = Some (demo_file 1 50 50)"
    by (simp add: demo_state_def)
  have 2: "decode demo_pil (demo_file 1 50 50) = Inr ?im"
    by (simp add: demo_pil_def demo_file_def)
  have 3: "convert_rgba demo_pil ?im = Inr ?img"
    by (simp add: convert_rgba_def demo_pil_def)
  have 4: "with_suffix ?p ''.backup.png'' = Inr [''og-banner.backup.png'']"
    by (simp add: with_suffix_backup name_def stem_def rfind_dot_def lstrip_dots_def)
  have 5: "encode demo_pil (PNG True 9) ?img = Inr ?png"
    by (simp add: demo_pil_def demo_encode_def demo_tag_def)
  have 6: "1 * 1024 \<le> int (length ?png)" by simp
  have 7: "\<forall>q\<in>set quality_ladder. \<exists>d. encode demo_pil (JPEG q True) ?img = Inr d \<and>
             1 * 1024 \<le> int (length d)"
    by (simp add: quality_ladder_def demo_pil_def demo_encode_def)
  have 8: "resize_px demo_pil ?img
             (scale_dim (fst (im_size ?img)), scale_dim (snd (im_size ?img))) LANCZOS = Inr ?px"
    by (simp add: demo_pil_def scale_dim_def)
  have 9: "encode demo_pil (JPEG 85 True) (resized ?img ?px) = Inr ?out"
    by (simp add: demo_pil_def demo_encode_def resized_def scale_dim_def)
  have f: "[?p \<mapsto> demo_file 1 50 50]([''og-banner.backup.png''] := None, ?p \<mapsto> ?out) =
           [?p \<mapsto> ?out]"
    by (auto simp: fun_eq_iff)
  note t = downscale_fallback[OF 1 2 3 4 5 6 7 8 9, THEN conjunct1]
  have "compress_image demo_pil ?p 1 (demo_state ?p (demo_file 1 50 50)) =
     Inr ((?p, 341 / 256),
          \<lparr>files = [?p \<mapsto> ?out],
           trace = [Opened ?p, Renamed ?p [''og-banner.backup.png''],
                    Saved ?p (PNG True 9) ?img]
                   @ jpeg_saves ?p ?img [95, 85, 75, 65, 55, 45]
                   @ [Opened [''og-banner.backup.png''],
                      Saved ?p (JPEG 85 True)
                        \<lparr>mode = ''RGB'', im_size = (40, 40), pixels = replicate 1600 7\<rparr>,
                      Unlinked [''og-banner.backup.png'']]\<rparr>)"
    using t f
    by (simp add: kb_def demo_state_def quality_ladder_def resized_def scale_dim_def)
  then show ?thesis using 2 by (intro conjI)
qed

section \<open>A result over the budget\<close>

text \<open>
  Claim C8. Let every step exceed the budget, the last JPEG of the reduced image included.
  Then \<open>compress_image\<close> does not raise: it returns the input path with the size of
  that JPEG, as in the successful cases, the file at the path is that JPEG, the backup is
  gone and the unlink is the last thing the run did. The size returned fails the test
  that the accepting stages apply.
\<close>

theorem oversized_result_returned:
  assumes "files s p = Some data" and "decode lib data = Inr im"
    and "convert_rgba lib im = Inr img" and "with_suffix p ''.backup.png'' = Inr bk"
    and "encode lib (PNG True 9) img = Inr png"
    and "max_size_kb * 1024 \<le> int (length png)"
    and "\<forall>q\<in>set quality_ladder. \<exists>d. encode lib (JPEG q True) img = Inr d \<and>
                                  max_size_kb * 1024 \<le> int (length d)"
    and "resize_px lib img (scale_dim (fst (im_size img)), scale_dim (snd (im_size img)))
           LANCZOS = Inr px"
    and "encode lib (JPEG 85 True) (resized img px) = Inr out"
    and "max_size_kb * 1024 \<le> int (length out)"
  shows "\<exists>s'. compress_image lib p max_size_kb s = Inr ((p, kb out), s') \<and>
              files s' p = Some out \<and> files s' bk = None \<and>
              last (trace s') = Unlinked bk \<and> \<not> kb out < of_int max_size_kb"
proof -
  have ne: "bk \<noteq> p" using assms(4) by (rule with_suffix_neq)
  have over: "\<not> kb png < of_int max_size_kb" using assms(6) by (simp add: bytes_kb)
  have all: "\<forall>q\<in>set quality_ladder. \<exists>d. encode lib (JPEG q True) img = Inr d \<and>
                \<not> kb d < of_int max_size_kb"
    using assms(7) by (simp add: bytes_kb)
  have "\<not> kb out < of_int max_size_kb" using assms(10) by (simp add: bytes_kb)
  with fallback_run[OF assms(1-5) over all assms(8,9)] ne show ?thesis by simp
qed

text \<open>A 60 by 40 image against one kilobyte: the last JPEG has 1309 bytes.\<close>

theorem oversized_result_returned_witness:
  "\<exists>s'. compress_image demo_pil [''og-banner.png''] 1
            (demo_state [''og-banner.png''] (demo_file 0 60 40)) =
          Inr (([''og-banner.png''], kb ([1, 0, 48, 32] @ replicate 1305 7)), s') \<and>
        files s' [''og-banner.png''] = Some ([1, 0, 48, 32] @ replicate 1305 7) \<and>
        files s' [''og-banner.backup.png''] = None \<and>
        last (trace s') = Unlinked [''og-banner.backup.png''] \<and>
        \<not> kb ([1, 0, 48, 32] @ replicate 1305 7) < of_int 1"
proof -
  let ?p = "[''og-banner.png'']"
  let ?img = "\<lparr>mode = ''RGB'', im_size = (60, 40), pixels = replicate 2400 (7 :: 8 word)\<rparr>"
  let ?png = "[0, 0, 60, 40] @ replicate 2400 (7 :: 8 word)"
  let ?px = "replicate 1536 (7 :: 8 word)"
  let ?out = "[1, 0, 48, 32] @ replicate 1305 (7 :: 8 word)"
  have 1: "files (demo_state ?p (demo_file 0 60 40)) ?p = Some (demo_file 0 60 40)"
    by (simp add: demo_state_def)
  have 2: "decode demo_pil (demo_file 0 60 40) = Inr ?img"
    by (simp add: demo_pil_def demo_file_def)
  have 3: "convert_rgba demo_pil ?img = Inr ?img"
    by (simp add: convert_rgba_def)
  have 4: "with_suffix ?p ''.backup.png'' = Inr [''og-banner.backup.png'']"
    by (simp add: with_suffix_backup name_def stem_def rfind_dot_def lstrip_dots_def)
  have 5: "encode demo_pil (PNG True 9) ?img = Inr ?png"
    by (simp add: demo_pil_def demo_encode_def demo_tag_def)
  have 6: "1 * 1024 \<le> int (length ?png)" by simp
  have 7: "\<forall>q\<in>set quality_ladder. \<exists>d. encode demo_pil (JPEG q True) ?img = Inr d \<and>
             1 * 1024 \<le> int (length d)"
    by (simp add: quality_ladder_def demo_pil_def demo_encode_def)
  have 8: "resize_px demo_pil ?img
             (scale_dim (fst (im_size ?img)), scale_dim (snd (im_size ?img))) LANCZOS = Inr ?px"
    by (simp add: demo_pil_def scale_dim_def)
  have 9: "encode demo_pil (JPEG 85 True) (resized ?img ?px) = Inr ?out"
    by (simp add: demo_pil_def demo_encode_def resized_def scale_dim_def)
  have 10: "1 * 1024 \<le> int (length ?out)" by simp
  show ?thesis
    by (rule oversized_result_returned[OF 1 2 3 4 5 6 7 8 9 10])
qed

section \<open>The life of the backup\<close>

text \<open>
  Claim C4. For every run of \<open>compress_image\<close>: if it returns, the backup path does not
  exist afterwards and the run unlinked it exactly once and unlinked nothing else; if it
  raises after the rename, the backup still exists afterwards, holds the bytes of the
  original, and nothing was unlinked; if the input path does not exist, the run raises
  \<open>FileNotFoundError\<close> and leaves the state as it was, so no backup is created.
\<close>

theorem backup_lifecycle:
  "(\<forall>r s'. compress_image lib p k s = Inr (r, s') \<longrightarrow>
      (\<exists>bk. with_suffix p ''.backup.png'' = Inr bk \<and> files s' bk = None \<and>
            (\<forall>q. count_list (new_events s s') (Unlinked q) = (if q = bk then 1 else 0)))) \<and>
   (\<forall>e s' bk. compress_image lib p k s = Inl (e, s') \<and>
              Renamed p bk \<in> set (new_events s s') \<longrightarrow>
      files s' bk = files s p \<and> files s' bk \<noteq> None \<and>
      (\<forall>q. Unlinked q \<notin> set (new_events s s'))) \<and>
   (files s p = None \<longrightarrow> compress_image lib p k s = Inl (FileNotFoundError, s))"
proof -
  have missing: "files s p = None \<longrightarrow> compress_image lib p k s = Inl (FileNotFoundError, s)"
    unfolding compress_image_def by (simp add: io_bind_def Image_open_def)
  have returned: "\<forall>r s'. compress_image lib p k s = Inr (r, s') \<longrightarrow>
      (\<exists>bk. with_suffix p ''.backup.png'' = Inr bk \<and> files s' bk = None \<and>
            (\<forall>q. count_list (new_events s s') (Unlinked q) = (if q = bk then 1 else 0)))"
  proof (intro allI impI)
  fix r s' assume run: "compress_image lib p k s = Inr (r, s')"
  with compress_image_early[of s p lib k] obtain data im img bk where
    h: "files s p = Some data" "decode lib data = Inr im" "convert_rgba lib im = Inr img"
       "with_suffix p ''.backup.png'' = Inr bk" by auto
  from compress_image_outcome[OF h, of k] run obtain evs where
    gone: "files s' bk = None"
    and tr: "trace s' = trace s @ [Opened p, Renamed p bk] @ evs @ [Unlinked bk]"
    and ev: "\<forall>x\<in>set evs. run_event lib img p bk x" by blast
  have new: "new_events s s' = [Opened p, Renamed p bk] @ evs @ [Unlinked bk]"
    using tr by (simp add: new_events_def)
  have "\<And>q. Unlinked q \<notin> set evs" using ev run_event_not_unlinked by blast
  then have "\<And>q. count_list evs (Unlinked q) = 0" by (rule count_list_none)
  then have "\<forall>q. count_list (new_events s s') (Unlinked q) = (if q = bk then 1 else 0)"
    unfolding new by simp
  with h(4) gone
  show "\<exists>bk. with_suffix p ''.backup.png'' = Inr bk \<and> files s' bk = None \<and>
            (\<forall>q. count_list (new_events s s') (Unlinked q) = (if q = bk then 1 else 0))"
    by blast
  qed
  have raised: "\<forall>e s' bk. compress_image lib p k s = Inl (e, s') \<and>
              Renamed p bk \<in> set (new_events s s') \<longrightarrow>
      files s' bk = files s p \<and> files s' bk \<noteq> None \<and>
      (\<forall>q. Unlinked q \<notin> set (new_events s s'))"
  proof (intro allI impI)
  fix e s' bk
  assume a: "compress_image lib p k s = Inl (e, s') \<and> Renamed p bk \<in> set (new_events s s')"
  then have run: "compress_image lib p k s = Inl (e, s')"
    and ren: "Renamed p bk \<in> set (new_events s s')" by simp_all
  have "\<not> (\<exists>e. compress_image lib p k s = Inl (e, s))"
    using run ren by (auto simp: new_events_def)
  moreover have "\<not> (\<exists>e. compress_image lib p k s = Inl (e, s\<lparr>trace := trace s @ [Opened p]\<rparr>))"
    using run ren by (auto simp: new_events_def)
  ultimately obtain data im img bk0 where
    h: "files s p = Some data" "decode lib data = Inr im" "convert_rgba lib im = Inr img"
       "with_suffix p ''.backup.png'' = Inr bk0"
    using compress_image_early[of s p lib k] by blast
  from compress_image_outcome[OF h, of k] run obtain evs where
    kept: "files s' bk0 = Some data"
    and tr: "trace s' = trace s @ [Opened p, Renamed p bk0] @ evs"
    and ev: "\<forall>x\<in>set evs. run_event lib img p bk0 x" by blast
  have new: "new_events s s' = [Opened p, Renamed p bk0] @ evs"
    using tr by (simp add: new_events_def)
  have "Renamed p bk \<notin> set evs" using ev run_event_not_renamed by blast
  with ren have "bk = bk0" unfolding new by simp
  have "\<And>q. Unlinked q \<notin> set evs" using ev run_event_not_unlinked by blast
  then have "\<forall>q. Unlinked q \<notin> set (new_events s s')" unfolding new by simp
  with kept h(1) \<open>bk = bk0\<close>
  show "files s' bk = files s p \<and> files s' bk \<noteq> None \<and>
      (\<forall>q. Unlinked q \<notin> set (new_events s s'))"
    by simp
  qed
  show ?thesis by (rule conjI[OF returned conjI[OF raised missing]])
qed

text \<open>
  A run that returns at the lossless stage; a run on an image of mode \<open>LA\<close>, whose
  first JPEG encode raises after the rename; a run on a path that does not exist.
\<close>

theorem backup_lifecycle_witness:
  "compress_image demo_pil [''og-banner.png''] 1
       (demo_state [''og-banner.png''] (demo_file 0 4 4)) =
     Inr (([''og-banner.png''], 5 / 256),
          \<lparr>files = [[''og-banner.png''] \<mapsto> [0, 0, 4, 4] @ replicate 16 7],
           trace = [Opened [''og-banner.png''],
                    Renamed [''og-banner.png''] [''og-banner.backup.png''],
                    Saved [''og-banner.png''] (PNG True 9)
                      \<lparr>mode = ''RGB'', im_size = (4, 4), pixels = replicate 16 7\<rparr>,
                    Unlinked [''og-banner.backup.png'']]\<rparr>)
   \<and> count_list [Opened [''og-banner.png''],
                  Renamed [''og-banner.png''] [''og-banner.backup.png''],
                  Saved [''og-banner.png''] (PNG True 9)
                    \<lparr>mode = ''RGB'', im_size = (4, 4), pixels = replicate 16 (7 :: 8 word)\<rparr>,
                  Unlinked [''og-banner.backup.png'']]
        (Unlinked [''og-banner.backup.png'']) = 1
   \<and> (\<exists>s'. compress_image demo_pil [''og-banner.png''] 1
               (demo_state [''og-banner.png''] (demo_file 2 60 40)) = Inl (OSError, s') \<and>
            files s' [''og-banner.backup.png''] = Some (demo_file 2 60 40))
   \<and> compress_image demo_pil [''og-banner.png''] 1
         (demo_state [''other.png''] (demo_file 0 4 4)) =
       Inl (FileNotFoundError, demo_state [''other.png''] (demo_file 0 4 4))"
proof -
  let ?p = "[''og-banner.png'']"
  let ?bk = "[''og-banner.backup.png'']"
  let ?s1 = "demo_state ?p (demo_file 0 4 4)"
  let ?s1' = "\<lparr>files = [?p \<mapsto> [0, 0, 4, 4] @ replicate 16 7],
           trace = [Opened ?p, Renamed ?p ?bk,
                    Saved ?p (PNG True 9)
                      \<lparr>mode = ''RGB'', im_size = (4, 4), pixels = replicate 16 (7 :: 8 word)\<rparr>,
                    Unlinked ?bk]\<rparr>"
  let ?s2 = "demo_state ?p (demo_file 2 60 40)"
  let ?s2' = "\<lparr>files = [?p \<mapsto> [], ?bk \<mapsto> demo_file 2 60 40],
           trace = [Opened ?p, Renamed ?p ?bk,
                    Saved ?p (PNG True 9)
                      \<lparr>mode = ''LA'', im_size = (60, 40), pixels = replicate 2400 (7 :: 8 word)\<rparr>,
                    Saved ?p (JPEG 95 True)
                      \<lparr>mode = ''LA'', im_size = (60, 40), pixels = replicate 2400 7\<rparr>]\<rparr>"
  let ?s3 = "demo_state [''other.png''] (demo_file 0 4 4)"
  have ws: "with_suffix ?p ''.backup.png'' = Inr ?bk"
    by (simp add: with_suffix_backup name_def stem_def rfind_dot_def lstrip_dots_def)
  have n1: "new_events ?s1 ?s1' = trace ?s1'" by (simp add: new_events_def demo_state_def)
  note l1 = backup_lifecycle[of demo_pil ?p 1 ?s1, THEN conjunct1, rule_format,
      OF demo_run_small]
  then obtain bk where bk: "with_suffix ?p ''.backup.png'' = Inr bk"
    and cnt: "\<forall>q. count_list (new_events ?s1 ?s1') (Unlinked q) = (if q = bk then 1 else 0)"
    by (elim exE conjE)
  from bk ws have "bk = ?bk" by simp
  with cnt have a: "count_list (new_events ?s1 ?s1') (Unlinked ?bk) = 1" by simp
  have ren: "Renamed ?p ?bk \<in> set (new_events ?s2 ?s2')"
    by (simp add: new_events_def demo_state_def)
  note l2 = backup_lifecycle[of demo_pil ?p 1 ?s2, THEN conjunct2, THEN conjunct1,
      rule_format, OF conjI[OF demo_run_la ren]]
  then have "files ?s2' ?bk = files ?s2 ?p" by (rule conjunct1)
  then have b: "files ?s2' ?bk = Some (demo_file 2 60 40)" by (simp add: demo_state_def)
  have miss: "files ?s3 ?p = None" by (simp add: demo_state_def)
  have c: "compress_image demo_pil ?p 1 ?s3 = Inl (FileNotFoundError, ?s3)"
    by (rule backup_lifecycle[of demo_pil ?p 1 ?s3, THEN conjunct2, THEN conjunct2,
          rule_format, OF miss])
  show ?thesis using demo_run_small a[unfolded n1] demo_run_la b c by simp
qed

section \<open>What is encoded\<close>

text \<open>
  Claim C10. In every run, returning or raising, every image handed to \<open>save\<close> (the PNG
  pass, the JPEG attempts and the last encode) is the flattened decoding of the bytes
  that the input path held when the run began, or that image resized; the target
  is always the input path. No attempt encodes the decoding of an earlier output.
\<close>

theorem encodes_only_original:
  "\<forall>q f x. Saved q f x \<in> set (new_events s (final_state (compress_image lib p k s))) \<longrightarrow>
     (\<exists>data im img. files s p = Some data \<and> decode lib data = Inr im \<and>
        convert_rgba lib im = Inr img \<and> q = p \<and> encodes_original lib img x)"
  by (rule saved_event_image)


text \<open>
  The 60 by 40 image, whose run ends in the last resort: the image resized to 48 by 32
  and saved at quality 85 comes from the decoding of the original bytes.
\<close>

theorem encodes_only_original_witness:
  "\<exists>data im img. files (demo_state [''og-banner.png''] (demo_file 0 60 40)) [''og-banner.png'']
         = Some data \<and>
       decode demo_pil data = Inr im \<and> convert_rgba demo_pil im = Inr img \<and>
       encodes_original demo_pil img
         \<lparr>mode = ''RGB'', im_size = (48, 32), pixels = replicate 1536 7\<rparr>"
proof -
  let ?p = "[''og-banner.png'']"
  let ?s = "demo_state ?p (demo_file 0 60 40)"
  let ?x = "\<lparr>mode = ''RGB'', im_size = (48, 32), pixels = replicate 1536 (7 :: 8 word)\<rparr>"
  have "Saved ?p (JPEG 85 True) ?x \<in>
          set (new_events ?s (final_state (compress_image demo_pil ?p 1 ?s)))"
    unfolding demo_run_large by (simp add: final_state_def new_events_def demo_state_def)
  with encodes_only_original[of ?s demo_pil ?p 1] show ?thesis by blast
qed

section \<open>The entry point\<close>

text \<open>
  Claim C9. \<open>main\<close> returns, and the process exits with, status 1 and an unchanged state
  when the banner does not exist; status 0 when \<open>compress_image\<close> returns; status 1, after
  printing the traceback, when \<open>compress_image\<close> raises.
\<close>

theorem main_exit_status:
  "(\<not> exists_path (banner_path f) s \<longrightarrow> main lib f s = (1, s)) \<and>
   (\<forall>r s'. exists_path (banner_path f) s \<and>
            compress_image lib (banner_path f) 300 s = Inr (r, s') \<longrightarrow>
            main lib f s = (0, s')) \<and>
   (\<forall>e s'. exists_path (banner_path f) s \<and>
            compress_image lib (banner_path f) 300 s = Inl (e, s') \<longrightarrow>
            main lib f s = (1, s'\<lparr>trace := trace s' @ [Print_exc e]\<rparr>))"
  by (auto simp: main_def)

text \<open>
  The script in \<open>scripts\<close>: no banner at \<open>public/og-banner.png\<close>; a small banner;
  a banner that does not decode.
\<close>

theorem main_exit_status_witness:
  "main demo_pil [''scripts'', ''compress_og_banner.py'']
       (demo_state [''public'', ''og-banner.jpg''] (demo_file 0 4 4)) =
     (1, demo_state [''public'', ''og-banner.jpg''] (demo_file 0 4 4))
   \<and> fst (main demo_pil [''scripts'', ''compress_og_banner.py'']
            (demo_state [''public'', ''og-banner.png''] (demo_file 0 4 4))) = 0
   \<and> main demo_pil [''scripts'', ''compress_og_banner.py'']
         (demo_state [''public'', ''og-banner.png''] [1, 2, 3]) =
       (1, \<lparr>files = [[''public'', ''og-banner.png''] \<mapsto> [1, 2, 3]],
            trace = [Print_exc UnidentifiedImageError]\<rparr>)"
proof -
  let ?f = "[''scripts'', ''compress_og_banner.py'']"
  let ?p = "[''public'', ''og-banner.png'']"
  let ?s1 = "demo_state [''public'', ''og-banner.jpg''] (demo_file 0 4 4)"
  let ?s2 = "demo_state ?p (demo_file 0 4 4)"
  let ?s3 = "demo_state ?p [1, 2, 3]"
  note m1 = main_exit_status[of ?f ?s1 demo_pil, unfolded demo_banner]
  note m2 = main_exit_status[of ?f ?s2 demo_pil, unfolded demo_banner]
  note m3 = main_exit_status[of ?f ?s3 demo_pil, unfolded demo_banner]
  have e1: "\<not> exists_path ?p ?s1" by (simp add: exists_path_def demo_state_def)
  have e2: "exists_path ?p ?s2" by (simp add: exists_path_def demo_state_def)
  have e3: "exists_path ?p ?s3" by (simp add: exists_path_def demo_state_def)
  have a: "main demo_pil ?f ?s1 = (1, ?s1)"
    by (rule m1[THEN conjunct1, rule_format, OF e1])
  have "main demo_pil ?f ?s2 = (0, snd (projr (compress_image demo_pil ?p 300 ?s2)))"
    by (rule m2[THEN conjunct2, THEN conjunct1, rule_format])
       (simp add: e2 demo_run_banner)
  then have b: "fst (main demo_pil ?f ?s2) = 0" by simp
  have "main demo_pil ?f ?s3 =
          (1, ?s3\<lparr>trace := trace ?s3 @ [Print_exc UnidentifiedImageError]\<rparr>)"
    by (rule m3[THEN conjunct2, THEN conjunct2, rule_format])
       (simp add: e3 demo_run_garbage)
  then have c: "main demo_pil ?f ?s3 =
       (1, \<lparr>files = [?p \<mapsto> [1, 2, 3]], trace = [Print_exc UnidentifiedImageError]\<rparr>)"
    by (simp add: demo_state_def)
  show ?thesis using a b c by simp
qed


section \<open>The backup path\<close>

text \<open>
  Claim C5 says that the backup of \<open>name.ext\<close> is \<open>name.backup.ext\<close> for every
  extension, and that the rename precedes any transformation. Line 34 replaces the
  extension by the fixed suffix \<open>.backup.png\<close>: the backup of \<open>og-banner.jpg\<close> is
  \<open>og-banner.backup.png\<close>, not \<open>og-banner.backup.jpg\<close>, and the run renames the input to
  that path. And lines 27 to 31 flatten an image of mode \<open>RGBA\<close> before line 35 renames
  the file: when the flattening raises, the run ends with the input still at its path and
  nothing renamed.
\<close>

theorem backup_name_counterexample:
  "spec_backup_path [''og-banner.jpg''] = [''og-banner.backup.jpg''] \<and>
   with_suffix [''og-banner.jpg''] ''.backup.png'' = Inr [''og-banner.backup.png''] \<and>
   [''og-banner.backup.png''] \<noteq> spec_backup_path [''og-banner.jpg''] \<and>
   new_events (demo_state [''og-banner.jpg''] (demo_file 0 4 4))
     (final_state (compress_image demo_pil [''og-banner.jpg''] 1
        (demo_state [''og-banner.jpg''] (demo_file 0 4 4)))) =
     [Opened [''og-banner.jpg''],
      Renamed [''og-banner.jpg''] [''og-banner.backup.png''],
      Saved [''og-banner.jpg''] (PNG True 9)
        \<lparr>mode = ''RGB'', im_size = (4, 4), pixels = replicate 16 7\<rparr>,
      Unlinked [''og-banner.backup.png'']] \<and>
   decode demo_pil_no_bands (demo_file 1 4 4) =
     Inr \<lparr>mode = ''RGBA'', im_size = (4, 4), pixels = replicate 16 7\<rparr> \<and>
   compress_image demo_pil_no_bands [''og-banner.png''] 1
       (demo_state [''og-banner.png''] (demo_file 1 4 4)) =
     Inl (IndexError,
          \<lparr>files = [[''og-banner.png''] \<mapsto> demo_file 1 4 4],
           trace = [Opened [''og-banner.png'']]\<rparr>)"
proof -
  have 1: "spec_backup_path [''og-banner.jpg''] = [''og-banner.backup.jpg'']"
    by (simp add: spec_backup_path_def stem_def suffix_def name_def rfind_dot_def lstrip_dots_def)
  have 2: "with_suffix [''og-banner.jpg''] ''.backup.png'' = Inr [''og-banner.backup.png'']"
    by (simp add: with_suffix_backup stem_def name_def rfind_dot_def lstrip_dots_def)
  have 3: "[''og-banner.backup.png''] \<noteq> spec_backup_path [''og-banner.jpg'']"
    unfolding 1 by simp
  have 4: "new_events (demo_state [''og-banner.jpg''] (demo_file 0 4 4))
     (final_state (compress_image demo_pil [''og-banner.jpg''] 1
        (demo_state [''og-banner.jpg''] (demo_file 0 4 4)))) =
     [Opened [''og-banner.jpg''],
      Renamed [''og-banner.jpg''] [''og-banner.backup.png''],
      Saved [''og-banner.jpg''] (PNG True 9)
        \<lparr>mode = ''RGB'', im_size = (4, 4), pixels = replicate 16 7\<rparr>,
      Unlinked [''og-banner.backup.png'']]"
    unfolding demo_run_jpg_name
    by (simp add: final_state_def new_events_def demo_state_def)
  have 5: "decode demo_pil_no_bands (demo_file 1 4 4) =
     Inr \<lparr>mode = ''RGBA'', im_size = (4, 4), pixels = replicate 16 7\<rparr>"
    by (simp add: demo_pil_no_bands_def demo_pil_def demo_file_def)
  have 6: "compress_image demo_pil_no_bands [''og-banner.png''] 1
       (demo_state [''og-banner.png''] (demo_file 1 4 4)) =
     Inl (IndexError,
          \<lparr>files = [[''og-banner.png''] \<mapsto> demo_file 1 4 4],
           trace = [Opened [''og-banner.png'']]\<rparr>)"
    by (simp add: demo_eval demo_pil_no_bands_def)
  show ?thesis by (rule conjI[OF 1 conjI[OF 2 conjI[OF 3 conjI[OF 4 conjI[OF 5 6]]]]])
qed

text \<open>
  Claim C5, amended. For every input path that names a file (its last component is not
  empty and holds no separator) and whose file decodes: the backup path is the input path
  with its extension replaced by \<open>.backup.png\<close>, whatever the extension was; it differs
  from the input path; the image is flattened first, and when the flattening raises
  nothing is renamed; otherwise the first two things the run does to the file system are
  to open the input and to rename it to the backup path, before any save; the rename
  moves the bytes (afterwards the input path has no file and the backup path holds the
  original bytes); and for the extension \<open>.png\<close> the backup path is the one the
  specification words, \<open>name.backup.png\<close>.
\<close>

theorem backup_path_fixed_suffix:
  assumes "files s p = Some data" and "decode lib data = Inr im"
    and "name p \<noteq> []" and "CHR ''/'' \<notin> set (name p)"
  shows "with_suffix p ''.backup.png'' = Inr (butlast p @ [stem p @ ''.backup.png'']) \<and>
         butlast p @ [stem p @ ''.backup.png''] \<noteq> p \<and>
         (\<forall>e. convert_rgba lib im = Inl e \<longrightarrow>
            compress_image lib p k s = Inl (e, s\<lparr>trace := trace s @ [Opened p]\<rparr>)) \<and>
         (\<forall>img. convert_rgba lib im = Inr img \<longrightarrow>
            take 2 (new_events s (final_state (compress_image lib p k s))) =
              [Opened p, Renamed p (butlast p @ [stem p @ ''.backup.png''])]) \<and>
         rename p (butlast p @ [stem p @ ''.backup.png'']) s =
           Inr ((), s\<lparr>files := (files s)(p := None,
                                          butlast p @ [stem p @ ''.backup.png''] \<mapsto> data),
                       trace := trace s @
                         [Renamed p (butlast p @ [stem p @ ''.backup.png''])]\<rparr>) \<and>
         (suffix p = ''.png'' \<longrightarrow>
            butlast p @ [stem p @ ''.backup.png''] = spec_backup_path p)"
proof -
  let ?bk = "butlast p @ [stem p @ ''.backup.png'']"
  let ?r = "compress_image lib p k s"
  have "set (stem p) \<subseteq> set (name p)"
    using stem_cases[of p] by (auto dest: in_set_takeD)
  then have "CHR ''/'' \<notin> set (stem p)" using assms(4) by blast
  then have ws: "with_suffix p ''.backup.png'' = Inr ?bk"
    using assms(3) by (simp add: with_suffix_backup)
  have ne: "?bk \<noteq> p" using ws by (rule with_suffix_neq)
  have early: "\<forall>e. convert_rgba lib im = Inl e \<longrightarrow>
            ?r = Inl (e, s\<lparr>trace := trace s @ [Opened p]\<rparr>)"
    using convert_rgba_raises[OF assms(1,2)] by blast
  have tk: "\<forall>img. convert_rgba lib im = Inr img \<longrightarrow>
            take 2 (new_events s (final_state ?r)) = [Opened p, Renamed p ?bk]"
  proof (intro allI impI)
    fix img assume cv: "convert_rgba lib im = Inr img"
    note out = compress_image_outcome[OF assms(1,2) cv ws, of k]
    show "take 2 (new_events s (final_state ?r)) = [Opened p, Renamed p ?bk]"
    proof (cases ?r)
      case (Inl a)
      obtain e s' where a: "a = (e, s')" by (cases a)
      from out Inl a obtain evs where
        "trace s' = trace s @ [Opened p, Renamed p ?bk] @ evs" by blast
      then show ?thesis using Inl a by (simp add: new_events_def final_state_def)
    next
      case (Inr b)
      obtain r s' where b: "b = (r, s')" by (cases b)
      from out Inr b obtain evs where
        "trace s' = trace s @ [Opened p, Renamed p ?bk] @ evs @ [Unlinked ?bk]" by blast
      then show ?thesis using Inr b by (simp add: new_events_def final_state_def)
    qed
  qed
  have mv: "rename p ?bk s =
           Inr ((), s\<lparr>files := (files s)(p := None, ?bk \<mapsto> data),
                       trace := trace s @ [Renamed p ?bk]\<rparr>)"
    using assms(1) by (simp add: rename_def)
  have png: "suffix p = ''.png'' \<longrightarrow> ?bk = spec_backup_path p"
    by (simp add: spec_backup_path_def)
  show ?thesis
    by (rule conjI[OF ws conjI[OF ne conjI[OF early conjI[OF tk conjI[OF mv png]]]]])
qed

text \<open>
  The path \<open>og-banner.jpg\<close>; an image of mode \<open>RGBA\<close> with the codec whose \<open>split\<close>
  yields no bands; the path \<open>og-banner.png\<close>.
\<close>

theorem backup_path_fixed_suffix_witness:
  "with_suffix [''og-banner.jpg''] ''.backup.png'' = Inr [''og-banner.backup.png''] \<and>
   take 2 (new_events (demo_state [''og-banner.jpg''] (demo_file 0 4 4))
     (final_state (compress_image demo_pil [''og-banner.jpg''] 1
        (demo_state [''og-banner.jpg''] (demo_file 0 4 4))))) =
     [Opened [''og-banner.jpg''], Renamed [''og-banner.jpg''] [''og-banner.backup.png'']] \<and>
   compress_image demo_pil_no_bands [''og-banner.png''] 1
       (demo_state [''og-banner.png''] (demo_file 1 4 4)) =
     Inl (IndexError,
          (demo_state [''og-banner.png''] (demo_file 1 4 4))
            \<lparr>trace := trace (demo_state [''og-banner.png''] (demo_file 1 4 4)) @
                        [Opened [''og-banner.png'']]\<rparr>) \<and>
   [''og-banner.backup.png''] = spec_backup_path [''og-banner.png'']"
proof -
  let ?j = "[''og-banner.jpg'']"
  let ?p = "[''og-banner.png'']"
  let ?img = "\<lparr>mode = ''RGB'', im_size = (4, 4), pixels = replicate 16 (7 :: 8 word)\<rparr>"
  let ?rgba = "\<lparr>mode = ''RGBA'', im_size = (4, 4), pixels = replicate 16 (7 :: 8 word)\<rparr>"
  have f1: "files (demo_state ?j (demo_file 0 4 4)) ?j = Some (demo_file 0 4 4)"
    by (simp add: demo_state_def)
  have f2: "files (demo_state ?p (demo_file 0 4 4)) ?p = Some (demo_file 0 4 4)"
    by (simp add: demo_state_def)
  have f3: "files (demo_state ?p (demo_file 1 4 4)) ?p = Some (demo_file 1 4 4)"
    by (simp add: demo_state_def)
  have d1: "decode demo_pil (demo_file 0 4 4) = Inr ?img"
    by (simp add: demo_pil_def demo_file_def)
  have d3: "decode demo_pil_no_bands (demo_file 1 4 4) = Inr ?rgba"
    by (simp add: demo_pil_no_bands_def demo_pil_def demo_file_def)
  have c1: "convert_rgba demo_pil ?img = Inr ?img"
    by (simp add: convert_rgba_def)
  have c3: "convert_rgba demo_pil_no_bands ?rgba = Inl IndexError"
    by (simp add: convert_rgba_def demo_pil_no_bands_def demo_pil_def)
  have nj: "name ?j \<noteq> []" by (simp add: name_def)
  have np: "name ?p \<noteq> []" by (simp add: name_def)
  have sj: "CHR ''/'' \<notin> set (name ?j)" by (simp add: name_def)
  have sp: "CHR ''/'' \<notin> set (name ?p)" by (simp add: name_def)
  have bj: "butlast ?j @ [stem ?j @ ''.backup.png''] = [''og-banner.backup.png'']"
    by (simp add: stem_def name_def rfind_dot_def lstrip_dots_def)
  have bp: "butlast ?p @ [stem ?p @ ''.backup.png''] = [''og-banner.backup.png'']"
    by (simp add: stem_def name_def rfind_dot_def lstrip_dots_def)
  have sfx: "suffix ?p = ''.png''"
    by (simp add: suffix_def name_def rfind_dot_def lstrip_dots_def)
  note j = backup_path_fixed_suffix[OF f1 d1 nj sj, of 1, unfolded bj]
  note n = backup_path_fixed_suffix[OF f3 d3 np sp, of 1, unfolded bp]
  note q = backup_path_fixed_suffix[OF f2 d1 np sp, of 1, unfolded bp]
  have a: "with_suffix ?j ''.backup.png'' = Inr [''og-banner.backup.png'']"
    by (rule j[THEN conjunct1])
  have b: "take 2 (new_events (demo_state ?j (demo_file 0 4 4))
     (final_state (compress_image demo_pil ?j 1 (demo_state ?j (demo_file 0 4 4))))) =
     [Opened ?j, Renamed ?j [''og-banner.backup.png'']]"
    by (rule j[THEN conjunct2, THEN conjunct2, THEN conjunct2, THEN conjunct1, rule_format,
          OF c1])
  have c: "compress_image demo_pil_no_bands ?p 1 (demo_state ?p (demo_file 1 4 4)) =
     Inl (IndexError,
          (demo_state ?p (demo_file 1 4 4))
            \<lparr>trace := trace (demo_state ?p (demo_file 1 4 4)) @ [Opened ?p]\<rparr>)"
    by (rule n[THEN conjunct2, THEN conjunct2, THEN conjunct1, rule_format, OF c3])
  have d: "[''og-banner.backup.png''] = spec_backup_path ?p"
    by (rule q[THEN conjunct2, THEN conjunct2, THEN conjunct2, THEN conjunct2,
          THEN conjunct2, rule_format, OF sfx])
  show ?thesis by (rule conjI[OF a conjI[OF b conjI[OF c d]]])
qed

section \<open>The colour mode\<close>

text \<open>
  Claim C6 says that an image of any mode with transparency is flattened. Lines 27 and 67
  test for the mode \<open>RGBA\<close> only: an image of mode \<open>LA\<close> (grey with alpha) is kept as
  it is, its PNG is encoded with the alpha band, and here the first JPEG encode raises.
\<close>

theorem alpha_mode_counterexample:
  "has_alpha_channel ''LA'' \<and>
   decode demo_pil (demo_file 2 60 40) =
     Inr \<lparr>mode = ''LA'', im_size = (60, 40), pixels = replicate 2400 7\<rparr> \<and>
   convert_rgba demo_pil \<lparr>mode = ''LA'', im_size = (60, 40), pixels = replicate 2400 7\<rparr> =
     Inr \<lparr>mode = ''LA'', im_size = (60, 40), pixels = replicate 2400 7\<rparr> \<and>
   new_events (demo_state [''og-banner.png''] (demo_file 2 60 40))
     (final_state (compress_image demo_pil [''og-banner.png''] 1
        (demo_state [''og-banner.png''] (demo_file 2 60 40)))) =
     [Opened [''og-banner.png''],
      Renamed [''og-banner.png''] [''og-banner.backup.png''],
      Saved [''og-banner.png''] (PNG True 9)
        \<lparr>mode = ''LA'', im_size = (60, 40), pixels = replicate 2400 7\<rparr>,
      Saved [''og-banner.png''] (JPEG 95 True)
        \<lparr>mode = ''LA'', im_size = (60, 40), pixels = replicate 2400 7\<rparr>]"
proof -
  have 1: "has_alpha_channel ''LA''" by (simp add: has_alpha_channel_def)
  have 2: "decode demo_pil (demo_file 2 60 40) =
     Inr \<lparr>mode = ''LA'', im_size = (60, 40), pixels = replicate 2400 7\<rparr>"
    by (simp add: demo_pil_def demo_file_def)
  have 3: "convert_rgba demo_pil \<lparr>mode = ''LA'', im_size = (60, 40), pixels = replicate 2400 7\<rparr> =
     Inr \<lparr>mode = ''LA'', im_size = (60, 40), pixels = replicate 2400 7\<rparr>"
    by (simp add: convert_rgba_def)
  show ?thesis unfolding demo_run_la using 1 2 3
    by (simp add: final_state_def new_events_def demo_state_def)
qed

text \<open>
  Claim C6, amended. An image of mode \<open>RGBA\<close> is flattened: the result has mode
  \<open>RGB\<close>, the same size and no transparency, and its pixels are those of a white
  \<open>RGB\<close> image onto which the input was pasted with its fourth band as the mask. An
  image of any other mode is kept as decoded. Flattening is idempotent, and it precedes
  every encode: no image handed to \<open>save\<close>, in any run, has mode \<open>RGBA\<close>.
\<close>

theorem rgba_flattened_on_white:
  "(mode im = ''RGBA'' \<and> convert_rgba lib im = Inr img \<longrightarrow>
      mode img = ''RGB'' \<and> im_size img = im_size im \<and> \<not> has_alpha_channel (mode img) \<and>
      pixels img =
        paste_px lib
          \<lparr>mode = ''RGB'', im_size = im_size im,
           pixels = new_px lib ''RGB'' (im_size im) (255, 255, 255)\<rparr>
          im
          \<lparr>mode = ''L'', im_size = im_size im, pixels = split_px lib im ! 3\<rparr>) \<and>
   (mode im \<noteq> ''RGBA'' \<longrightarrow> convert_rgba lib im = Inr im) \<and>
   (convert_rgba lib im = Inr img \<longrightarrow> convert_rgba lib img = Inr img) \<and>
   (\<forall>q f x. Saved q f x \<in> set (new_events s (final_state (compress_image lib p k s))) \<longrightarrow>
      mode x \<noteq> ''RGBA'')"
proof -
  have flat: "mode im = ''RGBA'' \<and> convert_rgba lib im = Inr img \<longrightarrow>
      mode img = ''RGB'' \<and> im_size img = im_size im \<and> \<not> has_alpha_channel (mode img) \<and>
      pixels img =
        paste_px lib
          \<lparr>mode = ''RGB'', im_size = im_size im,
           pixels = new_px lib ''RGB'' (im_size im) (255, 255, 255)\<rparr>
          im
          \<lparr>mode = ''L'', im_size = im_size im, pixels = split_px lib im ! 3\<rparr>"
    by (auto simp: convert_rgba_def Let_def has_alpha_channel_def split: if_splits)
  have other: "mode im \<noteq> ''RGBA'' \<longrightarrow> convert_rgba lib im = Inr im"
    by (simp add: convert_rgba_def)
  have idem: "convert_rgba lib im = Inr img \<longrightarrow> convert_rgba lib img = Inr img"
    by (simp add: convert_rgba_idem)
  have saved: "\<forall>q f x. Saved q f x \<in> set (new_events s (final_state (compress_image lib p k s)))
      \<longrightarrow> mode x \<noteq> ''RGBA''"
  proof (intro allI impI)
    fix q f x
    assume "Saved q f x \<in> set (new_events s (final_state (compress_image lib p k s)))"
    with saved_event_image[of s lib p k] obtain im0 img0 where
      "convert_rgba lib im0 = Inr img0" "encodes_original lib img0 x" by blast
    then show "mode x \<noteq> ''RGBA''"
      using convert_rgba_mode encodes_original_mode by metis
  qed
  show ?thesis by (rule conjI[OF flat conjI[OF other conjI[OF idem saved]]])
qed

text \<open>A 4 by 4 image in the modes \<open>RGBA\<close>, \<open>L\<close> and \<open>RGB\<close>, and the small run.\<close>

theorem rgba_flattened_on_white_witness:
  "mode \<lparr>mode = ''RGB'', im_size = (4, 4), pixels = replicate 16 (7 :: 8 word)\<rparr> = ''RGB'' \<and>
   convert_rgba demo_pil \<lparr>mode = ''RGBA'', im_size = (4, 4), pixels = replicate 16 7\<rparr> =
     Inr \<lparr>mode = ''RGB'', im_size = (4, 4), pixels = replicate 16 7\<rparr> \<and>
   convert_rgba demo_pil \<lparr>mode = ''L'', im_size = (4, 4), pixels = replicate 16 7\<rparr> =
     Inr \<lparr>mode = ''L'', im_size = (4, 4), pixels = replicate 16 7\<rparr> \<and>
   convert_rgba demo_pil \<lparr>mode = ''RGB'', im_size = (4, 4), pixels = replicate 16 7\<rparr> =
     Inr \<lparr>mode = ''RGB'', im_size = (4, 4), pixels = replicate 16 7\<rparr> \<and>
   mode \<lparr>mode = ''RGB'', im_size = (4, 4), pixels = replicate 16 (7 :: 8 word)\<rparr> \<noteq> ''RGBA''"
proof -
  let ?p = "[''og-banner.png'']"
  let ?s = "demo_state ?p (demo_file 0 4 4)"
  let ?rgba = "\<lparr>mode = ''RGBA'', im_size = (4, 4), pixels = replicate 16 (7 :: 8 word)\<rparr>"
  let ?rgb = "\<lparr>mode = ''RGB'', im_size = (4, 4), pixels = replicate 16 (7 :: 8 word)\<rparr>"
  let ?l = "\<lparr>mode = ''L'', im_size = (4, 4), pixels = replicate 16 (7 :: 8 word)\<rparr>"
  have cv: "convert_rgba demo_pil ?rgba = Inr ?rgb"
    by (simp add: convert_rgba_def demo_pil_def)
  have m: "mode ?rgba = ''RGBA''" by simp
  have ml: "mode ?l \<noteq> ''RGBA''" by simp
  have sv: "Saved ?p (PNG True 9) ?rgb \<in>
              set (new_events ?s (final_state (compress_image demo_pil ?p 1 ?s)))"
    unfolding demo_run_small by (simp add: final_state_def new_events_def demo_state_def)
  note t1 = rgba_flattened_on_white[of ?rgba demo_pil ?rgb ?s ?p 1]
  note t2 = rgba_flattened_on_white[of ?l demo_pil ?l ?s ?p 1]
  have a: "mode ?rgb = ''RGB''"
    by (rule t1[THEN conjunct1, rule_format, OF conjI[OF m cv], THEN conjunct1])
  have b: "convert_rgba demo_pil ?l = Inr ?l"
    by (rule t2[THEN conjunct2, THEN conjunct1, rule_format, OF ml])
  have c: "convert_rgba demo_pil ?rgb = Inr ?rgb"
    by (rule t1[THEN conjunct2, THEN conjunct2, THEN conjunct1, rule_format, OF cv])
  have d: "mode ?rgb \<noteq> ''RGBA''"
    by (rule t1[THEN conjunct2, THEN conjunct2, THEN conjunct2, rule_format, OF sv])
  show ?thesis using a cv b c d by (intro conjI)
qed


section \<open>Running the pipeline twice\<close>

text \<open>
  Claim C7 says that a second run on an output that is under budget ends at the lossless
  stage. The second run tests the PNG re-encode of the decoded output, not the output's
  own size, and nothing in the code relates the two. With the small codec: the first run
  on the 40 by 30 image accepts the JPEG of level 75, of 904 bytes, under the budget of
  1024; the second run decodes it, its PNG has 1204 bytes, and the run goes through the
  JPEG levels 95, 85 and 75 again.
\<close>

theorem second_run_counterexample:
  "compress_image demo_pil [''og-banner.png''] 1
       (demo_state [''og-banner.png''] (demo_file 0 40 30)) =
     Inr (([''og-banner.png''], 113 / 128),
          \<lparr>files = [[''og-banner.png''] \<mapsto> [1, 0, 40, 30] @ replicate 900 7],
           trace = [Opened [''og-banner.png''],
                    Renamed [''og-banner.png''] [''og-banner.backup.png''],
                    Saved [''og-banner.png''] (PNG True 9)
                      \<lparr>mode = ''RGB'', im_size = (40, 30), pixels = replicate 1200 7\<rparr>]
                   @ jpeg_saves [''og-banner.png'']
                      \<lparr>mode = ''RGB'', im_size = (40, 30), pixels = replicate 1200 7\<rparr>
                      [95, 85, 75]
                   @ [Unlinked [''og-banner.backup.png'']]\<rparr>) \<and>
   int (length ([1, 0, 40, 30] @ replicate 900 (7 :: 8 word))) < 1 * 1024 \<and>
   new_events
     \<lparr>files = [[''og-banner.png''] \<mapsto> [1, 0, 40, 30] @ replicate 900 7],
      trace = [Opened [''og-banner.png''],
               Renamed [''og-banner.png''] [''og-banner.backup.png''],
               Saved [''og-banner.png''] (PNG True 9)
                 \<lparr>mode = ''RGB'', im_size = (40, 30), pixels = replicate 1200 7\<rparr>]
              @ jpeg_saves [''og-banner.png'']
                 \<lparr>mode = ''RGB'', im_size = (40, 30), pixels = replicate 1200 7\<rparr>
                 [95, 85, 75]
              @ [Unlinked [''og-banner.backup.png'']]\<rparr>
     (final_state (compress_image demo_pil [''og-banner.png''] 1
       \<lparr>files = [[''og-banner.png''] \<mapsto> [1, 0, 40, 30] @ replicate 900 7],
        trace = [Opened [''og-banner.png''],
                 Renamed [''og-banner.png''] [''og-banner.backup.png''],
                 Saved [''og-banner.png''] (PNG True 9)
                   \<lparr>mode = ''RGB'', im_size = (40, 30), pixels = replicate 1200 7\<rparr>]
                @ jpeg_saves [''og-banner.png'']
                   \<lparr>mode = ''RGB'', im_size = (40, 30), pixels = replicate 1200 7\<rparr>
                   [95, 85, 75]
                @ [Unlinked [''og-banner.backup.png'']]\<rparr>)) =
     [Opened [''og-banner.png''],
      Renamed [''og-banner.png''] [''og-banner.backup.png''],
      Saved [''og-banner.png''] (PNG True 9)
        \<lparr>mode = ''RGB'', im_size = (40, 30), pixels = replicate 900 7 @ replicate 300 0\<rparr>]
     @ jpeg_saves [''og-banner.png'']
        \<lparr>mode = ''RGB'', im_size = (40, 30), pixels = replicate 900 7 @ replicate 300 0\<rparr>
        [95, 85, 75]
     @ [Unlinked [''og-banner.backup.png'']] \<and>
   encode demo_pil (PNG True 9)
     \<lparr>mode = ''RGB'', im_size = (40, 30), pixels = replicate 900 7 @ replicate 300 0\<rparr> =
     Inr ([0, 0, 40, 30] @ replicate 900 7 @ replicate 300 0) \<and>
   1 * 1024 \<le> int (length ([0, 0, 40, 30] @ replicate 900 (7 :: 8 word) @ replicate 300 0))"
proof -
  have e: "encode demo_pil (PNG True 9)
     \<lparr>mode = ''RGB'', im_size = (40, 30), pixels = replicate 900 7 @ replicate 300 0\<rparr> =
     Inr ([0, 0, 40, 30] @ replicate 900 7 @ replicate 300 0)"
    by (simp add: demo_pil_def demo_encode_def demo_tag_def)
  have l1: "int (length ([1, 0, 40, 30] @ replicate 900 (7 :: 8 word))) < 1 * 1024" by simp
  have l2: "1 * 1024 \<le> int (length ([0, 0, 40, 30] @ replicate 900 (7 :: 8 word) @ replicate 300 0))"
    by simp
  show ?thesis
    by (rule conjI[OF demo_run_medium conjI[OF l1 conjI[OF demo_run_again conjI[OF e l2]]]])
qed

text \<open>
  Claim C7, amended. When the first run accepted at the lossless stage, and decoding the
  PNG gives back the image that was encoded, the second run ends at the lossless stage: it
  saves the same PNG, encodes no JPEG and leaves the files as they were. More generally,
  a second run on the output of any returning first run ends at the lossless stage
  whenever the PNG re-encode of that output passes the test of line 44.
\<close>

theorem second_run_lossless:
  assumes "with_suffix p ''.backup.png'' = Inr bk"
  shows "(\<forall>data im img png.
            files s p = Some data \<and> decode lib data = Inr im \<and>
            convert_rgba lib im = Inr img \<and> encode lib (PNG True 9) img = Inr png \<and>
            kb png < of_int k \<and> decode lib png = Inr img \<longrightarrow>
            (\<exists>s1. compress_image lib p k s = Inr ((p, kb png), s1) \<and>
                  files s1 p = Some png \<and>
                  compress_image lib p k s1 =
                    Inr ((p, kb png),
                         s1\<lparr>trace := trace s1 @
                              [Opened p, Renamed p bk, Saved p (PNG True 9) img,
                               Unlinked bk]\<rparr>))) \<and>
         (\<forall>r s1 out im1 img1 png1.
            compress_image lib p k s = Inr (r, s1) \<and> files s1 p = Some out \<and>
            decode lib out = Inr im1 \<and> convert_rgba lib im1 = Inr img1 \<and>
            encode lib (PNG True 9) img1 = Inr png1 \<and> kb png1 < of_int k \<longrightarrow>
            compress_image lib p k s1 =
              Inr ((p, kb png1),
                   s1\<lparr>files := (files s1)(bk := None, p \<mapsto> png1),
                      trace := trace s1 @
                        [Opened p, Renamed p bk, Saved p (PNG True 9) img1, Unlinked bk]\<rparr>))"
proof -
  have first: "\<forall>data im img png.
            files s p = Some data \<and> decode lib data = Inr im \<and>
            convert_rgba lib im = Inr img \<and> encode lib (PNG True 9) img = Inr png \<and>
            kb png < of_int k \<and> decode lib png = Inr img \<longrightarrow>
            (\<exists>s1. compress_image lib p k s = Inr ((p, kb png), s1) \<and>
                  files s1 p = Some png \<and>
                  compress_image lib p k s1 =
                    Inr ((p, kb png),
                         s1\<lparr>trace := trace s1 @
                              [Opened p, Renamed p bk, Saved p (PNG True 9) img,
                               Unlinked bk]\<rparr>))"
  proof (intro allI impI, elim conjE)
    fix data im img png
    assume h: "files s p = Some data" "decode lib data = Inr im"
      "convert_rgba lib im = Inr img" "encode lib (PNG True 9) img = Inr png"
      "kb png < of_int k" and rt: "decode lib png = Inr img"
    let ?s1 = "s\<lparr>files := (files s)(bk := None, p \<mapsto> png),
                  trace := trace s @
                    [Opened p, Renamed p bk, Saved p (PNG True 9) img, Unlinked bk]\<rparr>"
    have r1: "compress_image lib p k s = Inr ((p, kb png), ?s1)"
      by (rule lossless_run[OF h(1-3) assms h(4,5)])
    have f1: "files ?s1 p = Some png" by simp
    have idem: "convert_rgba lib img = Inr img" using h(3) by (rule convert_rgba_idem)
    have same: "(files ?s1)(bk := None, p \<mapsto> png) = files ?s1"
      by (auto simp: fun_eq_iff)
    have "compress_image lib p k ?s1 =
            Inr ((p, kb png),
                 ?s1\<lparr>files := (files ?s1)(bk := None, p \<mapsto> png),
                   trace := trace ?s1 @
                     [Opened p, Renamed p bk, Saved p (PNG True 9) img, Unlinked bk]\<rparr>)"
      by (rule lossless_run[OF f1 rt idem assms h(4,5)])
    also have "?s1\<lparr>files := (files ?s1)(bk := None, p \<mapsto> png),
                   trace := trace ?s1 @
                     [Opened p, Renamed p bk, Saved p (PNG True 9) img, Unlinked bk]\<rparr> =
               ?s1\<lparr>trace := trace ?s1 @
                     [Opened p, Renamed p bk, Saved p (PNG True 9) img, Unlinked bk]\<rparr>"
      by (simp only: same) simp
    finally have r2: "compress_image lib p k ?s1 =
            Inr ((p, kb png),
                 ?s1\<lparr>trace := trace ?s1 @
                     [Opened p, Renamed p bk, Saved p (PNG True 9) img, Unlinked bk]\<rparr>)" .
    from r1 f1 r2
    show "\<exists>s1. compress_image lib p k s = Inr ((p, kb png), s1) \<and>
                  files s1 p = Some png \<and>
                  compress_image lib p k s1 =
                    Inr ((p, kb png),
                         s1\<lparr>trace := trace s1 @
                              [Opened p, Renamed p bk, Saved p (PNG True 9) img,
                               Unlinked bk]\<rparr>)"
      by (intro exI[of _ ?s1] conjI)
  qed
  have second: "\<forall>r s1 out im1 img1 png1.
            compress_image lib p k s = Inr (r, s1) \<and> files s1 p = Some out \<and>
            decode lib out = Inr im1 \<and> convert_rgba lib im1 = Inr img1 \<and>
            encode lib (PNG True 9) img1 = Inr png1 \<and> kb png1 < of_int k \<longrightarrow>
            compress_image lib p k s1 =
              Inr ((p, kb png1),
                   s1\<lparr>files := (files s1)(bk := None, p \<mapsto> png1),
                      trace := trace s1 @
                        [Opened p, Renamed p bk, Saved p (PNG True 9) img1, Unlinked bk]\<rparr>)"
  proof (intro allI impI, elim conjE)
    fix r s1 out im1 img1 png1
    assume "compress_image lib p k s = Inr (r, s1)"
      and h: "files s1 p = Some out" "decode lib out = Inr im1"
      "convert_rgba lib im1 = Inr img1" "encode lib (PNG True 9) img1 = Inr png1"
      "kb png1 < of_int k"
    from h show "compress_image lib p k s1 =
              Inr ((p, kb png1),
                   s1\<lparr>files := (files s1)(bk := None, p \<mapsto> png1),
                      trace := trace s1 @
                        [Opened p, Renamed p bk, Saved p (PNG True 9) img1, Unlinked bk]\<rparr>)"
      using assms by (intro lossless_run)
  qed
  show ?thesis by (rule conjI[OF first second])
qed

text \<open>The 4 by 4 image, run twice.\<close>

theorem second_run_lossless_witness:
  "(\<exists>s1. compress_image demo_pil [''og-banner.png''] 1
             (demo_state [''og-banner.png''] (demo_file 0 4 4)) =
           Inr (([''og-banner.png''], kb ([0, 0, 4, 4] @ replicate 16 7)), s1) \<and>
         files s1 [''og-banner.png''] = Some ([0, 0, 4, 4] @ replicate 16 7) \<and>
         compress_image demo_pil [''og-banner.png''] 1 s1 =
           Inr (([''og-banner.png''], kb ([0, 0, 4, 4] @ replicate 16 7)),
                s1\<lparr>trace := trace s1 @
                     [Opened [''og-banner.png''],
                      Renamed [''og-banner.png''] [''og-banner.backup.png''],
                      Saved [''og-banner.png''] (PNG True 9)
                        \<lparr>mode = ''RGB'', im_size = (4, 4), pixels = replicate 16 7\<rparr>,
                      Unlinked [''og-banner.backup.png'']]\<rparr>)) \<and>
   fst (projr (compress_image demo_pil [''og-banner.png''] 1
     \<lparr>files = [[''og-banner.png''] \<mapsto> [0, 0, 4, 4] @ replicate 16 7],
      trace = [Opened [''og-banner.png''],
               Renamed [''og-banner.png''] [''og-banner.backup.png''],
               Saved [''og-banner.png''] (PNG True 9)
                 \<lparr>mode = ''RGB'', im_size = (4, 4), pixels = replicate 16 7\<rparr>,
               Unlinked [''og-banner.backup.png'']]\<rparr>)) =
     ([''og-banner.png''], kb ([0, 0, 4, 4] @ replicate 16 7))"
proof -
  let ?p = "[''og-banner.png'']"
  let ?bk = "[''og-banner.backup.png'']"
  let ?s = "demo_state ?p (demo_file 0 4 4)"
  let ?img = "\<lparr>mode = ''RGB'', im_size = (4, 4), pixels = replicate 16 (7 :: 8 word)\<rparr>"
  let ?png = "[0, 0, 4, 4] @ replicate 16 (7 :: 8 word)"
  let ?s1 = "\<lparr>files = [?p \<mapsto> ?png],
      trace = [Opened ?p, Renamed ?p ?bk, Saved ?p (PNG True 9) ?img, Unlinked ?bk]\<rparr>"
  have ws: "with_suffix ?p ''.backup.png'' = Inr ?bk"
    by (simp add: with_suffix_backup name_def stem_def rfind_dot_def lstrip_dots_def)
  have 1: "files ?s ?p = Some (demo_file 0 4 4)" by (simp add: demo_state_def)
  have 2: "decode demo_pil (demo_file 0 4 4) = Inr ?img"
    by (simp add: demo_pil_def demo_file_def)
  have 3: "convert_rgba demo_pil ?img = Inr ?img" by (simp add: convert_rgba_def)
  have 4: "encode demo_pil (PNG True 9) ?img = Inr ?png"
    by (simp add: demo_pil_def demo_encode_def demo_tag_def)
  have 5: "kb ?png < of_int 1" by (simp add: kb_def)
  have 6: "decode demo_pil ?png = Inr ?img" by (simp add: demo_pil_def)
  have 7: "files ?s1 ?p = Some ?png" by simp
  note t = second_run_lossless[OF ws, of ?s demo_pil 1]
  note a = t[THEN conjunct1, rule_format,
      OF conjI[OF 1 conjI[OF 2 conjI[OF 3 conjI[OF 4 conjI[OF 5 6]]]]]]
  note b = t[THEN conjunct2, rule_format,
      OF conjI[OF demo_run_small conjI[OF 7 conjI[OF 6 conjI[OF 3 conjI[OF 4 5]]]]]]
  have c: "fst (projr (compress_image demo_pil ?p 1 ?s1)) = (?p, kb ?png)"
    unfolding b by simp
  show ?thesis using a c by (intro conjI)
qed

end
